theory Spec2Isabelle
  imports Main "HOL-Library.Sublist" "HOL-Library.Char_ord" "HOL-Library.List_Lexorder"
    "HOL-Library.AList"
begin

section \<open>The adguard\_rule plugin of mosdns: rule lists, parser, matcher snapshot, control API\<close>

text \<open>
  The development follows \<^verbatim>\<open>src/dispatcher/dispatcher.go\<close>, package
  \<^verbatim>\<open>adguard_rule\<close>. Go strings are byte sequences and are modelled by
  \<^typ>\<open>string\<close> (a list of 8-bit characters); the comparison \<^verbatim>\<open><\<close> of Go
  strings is the bytewise lexicographic order, which is the order of
  \<^typ>\<open>string\<close> under the two ordering theories imported above.
\<close>

subsection \<open>The functions of package strings that the plugin calls\<close>

text \<open>
  \<^verbatim>\<open>unicode.IsSpace\<close> holds of the runes U+0009..U+000D, U+0020, U+0085, U+00A0,
  U+1680, U+2000..U+200A, U+2028, U+2029, U+202F, U+205F and U+3000. \<open>spaceRunes\<close> lists
  their UTF-8 encodings. No encoding is a prefix of another one, every byte after the first
  of an encoding is a continuation byte, and no encoding begins with a continuation byte, so
  a white space rune is decoded at a position exactly when one of the encodings begins there.
\<close>

definition spaceRunes :: "string list" where
  "spaceRunes =
    [[CHR 0x09], [CHR 0x0A], [CHR 0x0B], [CHR 0x0C], [CHR 0x0D], [CHR 0x20],
     [CHR 0xC2, CHR 0x85], [CHR 0xC2, CHR 0xA0],
     [CHR 0xE1, CHR 0x9A, CHR 0x80],
     [CHR 0xE2, CHR 0x80, CHR 0x80], [CHR 0xE2, CHR 0x80, CHR 0x81],
     [CHR 0xE2, CHR 0x80, CHR 0x82], [CHR 0xE2, CHR 0x80, CHR 0x83],
     [CHR 0xE2, CHR 0x80, CHR 0x84], [CHR 0xE2, CHR 0x80, CHR 0x85],
     [CHR 0xE2, CHR 0x80, CHR 0x86], [CHR 0xE2, CHR 0x80, CHR 0x87],
     [CHR 0xE2, CHR 0x80, CHR 0x88], [CHR 0xE2, CHR 0x80, CHR 0x89],
     [CHR 0xE2, CHR 0x80, CHR 0x8A],
     [CHR 0xE2, CHR 0x80, CHR 0xA8], [CHR 0xE2, CHR 0x80, CHR 0xA9],
     [CHR 0xE2, CHR 0x80, CHR 0xAF],
     [CHR 0xE2, CHR 0x81, CHR 0x9F],
     [CHR 0xE3, CHR 0x80, CHR 0x80]]"

text \<open>The number of bytes of the white space rune at the front (at the back) of a string;
  0 when the string does not begin (end) with one.\<close>

definition spaceLen :: "string \<Rightarrow> nat" where
  "spaceLen s = (case find (\<lambda>e. prefix e s) spaceRunes of None \<Rightarrow> 0 | Some e \<Rightarrow> length e)"

definition spaceLenBack :: "string \<Rightarrow> nat" where
  "spaceLenBack s = (case find (\<lambda>e. suffix e s) spaceRunes of None \<Rightarrow> 0 | Some e \<Rightarrow> length e)"

lemma spaceLen_le: "spaceLen s \<le> length s"
  by (auto simp: spaceLen_def find_Some_iff prefix_def split: option.splits)

lemma spaceLenBack_le: "spaceLenBack s \<le> length s"
  by (auto simp: spaceLenBack_def find_Some_iff suffix_def split: option.splits)

text \<open>\<^verbatim>\<open>strings.TrimSpace\<close>: white space runes are removed from the front, decoding
  forwards, and then from the back, decoding backwards.\<close>

function TrimLeftSpace :: "string \<Rightarrow> string" where
  "TrimLeftSpace s = (if spaceLen s = 0 then s else TrimLeftSpace (drop (spaceLen s) s))"
  by pat_completeness auto
termination
proof (relation "measure length")
  fix s :: string
  assume "spaceLen s \<noteq> 0"
  moreover have "spaceLen s \<le> length s" by (rule spaceLen_le)
  ultimately show "(drop (spaceLen s) s, s) \<in> measure length" by simp
qed simp

function TrimRightSpace :: "string \<Rightarrow> string" where
  "TrimRightSpace s =
     (if spaceLenBack s = 0 then s else TrimRightSpace (take (length s - spaceLenBack s) s))"
  by pat_completeness auto
termination
proof (relation "measure length")
  fix s :: string
  assume "spaceLenBack s \<noteq> 0"
  moreover have "spaceLenBack s \<le> length s" by (rule spaceLenBack_le)
  ultimately show "(take (length s - spaceLenBack s) s, s) \<in> measure length" by simp
qed simp

declare TrimLeftSpace.simps [simp del] TrimRightSpace.simps [simp del]

definition TrimSpace :: "string \<Rightarrow> string" where
  "TrimSpace s = TrimRightSpace (TrimLeftSpace s)"

text \<open>\<^verbatim>\<open>strings.Fields\<close>: the maximal runs of bytes between white space runes. The first
  argument is the field being collected.\<close>

fun fieldsFrom :: "string \<Rightarrow> string \<Rightarrow> string list" where
  "fieldsFrom cur [] = (if cur = [] then [] else [cur])"
| "fieldsFrom cur (c # cs) =
     (case spaceLen (c # cs) of
        0 \<Rightarrow> fieldsFrom (cur @ [c]) cs
      | Suc k \<Rightarrow> (if cur = [] then [] else [cur]) @ fieldsFrom [] (drop k cs))"

definition Fields :: "string \<Rightarrow> string list" where
  "Fields s = fieldsFrom [] s"

definition HasPrefix :: "string \<Rightarrow> string \<Rightarrow> bool" where
  "HasPrefix s p = prefix p s"

definition HasSuffix :: "string \<Rightarrow> string \<Rightarrow> bool" where
  "HasSuffix s p = suffix p s"

definition TrimPrefix :: "string \<Rightarrow> string \<Rightarrow> string" where
  "TrimPrefix s p = (if HasPrefix s p then drop (length p) s else s)"

fun Contains :: "string \<Rightarrow> string \<Rightarrow> bool" where
  "Contains [] sub = (sub = [])"
| "Contains (c # cs) sub = (prefix sub (c # cs) \<or> Contains cs sub)"

definition ContainsAny :: "string \<Rightarrow> string \<Rightarrow> bool" where
  "ContainsAny s chars = list_ex (\<lambda>c. c \<in> set chars) s"

text \<open>\<^verbatim>\<open>strings.ReplaceAll\<close> for an old string of one byte, which is what both calls in
  \<^verbatim>\<open>convertToMosdnsRule\<close> pass.\<close>

definition ReplaceAll :: "string \<Rightarrow> char \<Rightarrow> string \<Rightarrow> string" where
  "ReplaceAll s old new = concat (map (\<lambda>c. if c = old then new else [c]) s)"

subsection \<open>What the plugin takes from its libraries\<close>

text \<open>
  The Go standard library decides five things that the plugin only calls: whether
  \<^verbatim>\<open>regexp.Compile\<close> accepts a pattern, whether a compiled pattern matches a string,
  the path \<^verbatim>\<open>filepath.Join\<close> builds from a directory and a file name, the text
  \<^verbatim>\<open>Time.MarshalJSON\<close> writes for a time (None when it refuses the time, as it does
  for a year outside 0..9999), and the time \<^verbatim>\<open>Time.UnmarshalJSON\<close> reads from a text
  (None when it refuses the text). They are parameters of the model. A time is modelled by
  the instant it denotes, in nanoseconds from the zero time (January 1 of year 1, 00:00:00
  UTC).
\<close>

type_synonym Time = int

record Env =
  regexpCompiles :: "string \<Rightarrow> bool"
  regexpMatches :: "string \<Rightarrow> string \<Rightarrow> bool"
  filepathJoin :: "string \<Rightarrow> string \<Rightarrow> string"
  formatTime :: "Time \<Rightarrow> string option"
  parseTime :: "string \<Rightarrow> Time option"

datatype error =
    UnsupportedRule
  | BadRegexp
  | ReadFailed
  | ParseConfigFailed
  | NilDereference
  | MarshalFailed
  | WriteTmpFailed
  | RenameFailed

subsection \<open>The domain matcher\<close>

text \<open>
  Modelled from the spec: \<^verbatim>\<open>domain.MixMatcher\<close> of package
  \<^verbatim>\<open>pkg/matcher/domain\<close> (its constructor \<^verbatim>\<open>NewDomainMixMatcher\<close> and its methods
  \<^verbatim>\<open>Add\<close> and \<^verbatim>\<open>Match\<close>) is not among the sources. Section 4.B of the
  specification gives it three indices, filled from rules \<^verbatim>\<open>full:<d>\<close> (exact match,
  case-insensitive), \<^verbatim>\<open>domain:<d>\<close> (the query equals d or ends with .d) and
  \<^verbatim>\<open>regexp:<p>\<close> (the query matches p), looked up in the order full, suffix, regex,
  any hit being a match. A rule of another form, or a regexp rule whose pattern does not
  compile, is refused and leaves the matcher as it was.
\<close>

record MixMatcher =
  mm_full :: "string list"
  mm_domain :: "string list"
  mm_regexp :: "string list"

definition NewDomainMixMatcher :: MixMatcher where
  "NewDomainMixMatcher = \<lparr>mm_full = [], mm_domain = [], mm_regexp = []\<rparr>"

definition MixMatcher_Add :: "Env \<Rightarrow> string \<Rightarrow> MixMatcher \<Rightarrow> error + MixMatcher" where
  "MixMatcher_Add env s m =
     (if HasPrefix s ''full:'' then
        Inr (m\<lparr>mm_full := mm_full m @ [TrimPrefix s ''full:'']\<rparr>)
      else if HasPrefix s ''domain:'' then
        Inr (m\<lparr>mm_domain := mm_domain m @ [TrimPrefix s ''domain:'']\<rparr>)
      else if HasPrefix s ''regexp:'' then
        (if regexpCompiles env (TrimPrefix s ''regexp:'')
         then Inr (m\<lparr>mm_regexp := mm_regexp m @ [TrimPrefix s ''regexp:'']\<rparr>)
         else Inl BadRegexp)
      else Inl UnsupportedRule)"

definition lowerASCII :: "char \<Rightarrow> char" where
  "lowerASCII c =
     (let n = (of_char c :: nat) in if 65 \<le> n \<and> n \<le> 90 then char_of (n + 32) else c)"

definition fullMatches :: "string \<Rightarrow> string \<Rightarrow> bool" where
  "fullMatches d q = (map lowerASCII d = map lowerASCII q)"

definition domainMatches :: "string \<Rightarrow> string \<Rightarrow> bool" where
  "domainMatches d q = (q = d \<or> suffix (''.'' @ d) q)"

definition MixMatcher_Match :: "Env \<Rightarrow> MixMatcher \<Rightarrow> string \<Rightarrow> bool" where
  "MixMatcher_Match env m q =
     (if list_ex (\<lambda>d. fullMatches d q) (mm_full m) then True
      else if list_ex (\<lambda>d. domainMatches d q) (mm_domain m) then True
      else list_ex (\<lambda>p. regexpMatches env p q) (mm_regexp m))"

subsection \<open>The rule parser\<close>

text \<open>The class \<^verbatim>\<open>\w\<close> of Go's regexp package is the ASCII class
  \<^verbatim>\<open>[0-9A-Za-z_]\<close>.\<close>

definition wordChar :: "char \<Rightarrow> bool" where
  "wordChar c =
     (c \<in> set ''0123456789ABCDEFGHIJKLMNOPQRSTUVWXYZ_abcdefghijklmnopqrstuvwxyz'')"

text \<open>The four patterns. Each function returns the first submatch of
  \<^verbatim>\<open>FindStringSubmatch\<close>, and None when the line does not match. All four are anchored
  at both ends, so the submatch is what lies between the fixed prefix and suffix.\<close>

definition blockRuleRegex :: "string \<Rightarrow> string option" where
  "blockRuleRegex line =
     (let d = butlast (drop 2 line) in
      if HasPrefix line ''||'' \<and> HasSuffix line ''^'' \<and> 3 \<le> length line \<and> d \<noteq> [] \<and>
         list_all (\<lambda>c. wordChar c \<or> c \<in> set ''.-*'') d
      then Some d else None)"

definition allowRuleRegex :: "string \<Rightarrow> string option" where
  "allowRuleRegex line =
     (let d = butlast (drop 4 line) in
      if HasPrefix line ''@@||'' \<and> HasSuffix line ''^'' \<and> 5 \<le> length line \<and> d \<noteq> [] \<and>
         list_all (\<lambda>c. wordChar c \<or> c \<in> set ''.-*'') d
      then Some d else None)"

definition regexRuleRegex :: "string \<Rightarrow> string option" where
  "regexRuleRegex line =
     (let d = butlast (drop 1 line) in
      if HasPrefix line ''/'' \<and> HasSuffix line ''/'' \<and> 2 \<le> length line \<and>
         list_all (\<lambda>c. c \<noteq> CHR 0x0A) d
      then Some d else None)"

definition fullMatchRegex :: "string \<Rightarrow> string option" where
  "fullMatchRegex line =
     (if line \<noteq> [] \<and> list_all (\<lambda>c. wordChar c \<or> c \<in> set ''.-'') line
      then Some line else None)"

definition cleanDomain :: "string \<Rightarrow> string" where
  "cleanDomain domain = TrimPrefix (TrimPrefix domain ''*.'') ''.''"

definition convertToMosdnsRule :: "string \<Rightarrow> string" where
  "convertToMosdnsRule domainStr =
     (if Contains domainStr ''*'' then
        ''regexp:'' @ ReplaceAll (ReplaceAll domainStr (CHR ''.'') [CHR 0x5C, CHR ''.''])
                                 (CHR ''*'') ''.*''
      else ''domain:'' @ domainStr)"

text \<open>The state of the loop of \<^verbatim>\<open>parseRules\<close>: the two builders, which the function
  mutates, and the count.\<close>

type_synonym parseState = "MixMatcher \<times> MixMatcher \<times> int"

text \<open>A rule of the allow or of the block form, after the pattern has matched.\<close>

definition addWildcardRule :: "Env \<Rightarrow> bool \<Rightarrow> string \<Rightarrow> parseState \<Rightarrow> parseState" where
  "addWildcardRule env toAllow m st =
     (case st of (allowM, denyM, count) \<Rightarrow>
        let domainStr = cleanDomain m;
            mosdnsRule = convertToMosdnsRule domainStr
        in if HasPrefix mosdnsRule ''regexp:''
              \<and> \<not> regexpCompiles env (TrimPrefix mosdnsRule ''regexp:'')
           then st
           else if toAllow then
             (case MixMatcher_Add env mosdnsRule allowM of
                Inr allowM' \<Rightarrow> (allowM', denyM, count + 1)
              | Inl e \<Rightarrow> st)
           else
             (case MixMatcher_Add env mosdnsRule denyM of
                Inr denyM' \<Rightarrow> (allowM, denyM', count + 1)
              | Inl e \<Rightarrow> st))"

definition addDenyRule :: "Env \<Rightarrow> string \<Rightarrow> parseState \<Rightarrow> parseState" where
  "addDenyRule env mosdnsRule st =
     (case st of (allowM, denyM, count) \<Rightarrow>
        (case MixMatcher_Add env mosdnsRule denyM of
           Inr denyM' \<Rightarrow> (allowM, denyM', count + 1)
         | Inl e \<Rightarrow> st))"

text \<open>The three tests that make the loop \<^verbatim>\<open>continue\<close> before any pattern is tried,
  on the trimmed line.\<close>

definition commentLine :: "string \<Rightarrow> bool" where
  "commentLine line = (line = [] \<or> HasPrefix line ''!'' \<or> HasPrefix line ''#'')"

definition hostsLine :: "string \<Rightarrow> bool" where
  "hostsLine line =
     (ContainsAny line ''0123456789''
      \<and> (Contains line ''127.0.0.1'' \<or> Contains line ''0.0.0.0'' \<or> Contains line ''::'')
      \<and> 1 < length (Fields line))"

definition cosmeticLine :: "string \<Rightarrow> bool" where
  "cosmeticLine line =
     (Contains line ''#?#'' \<or> Contains line ''##'' \<or> Contains line ''$$'')"

text \<open>One iteration of the loop: \<open>raw\<close> is \<^verbatim>\<open>scanner.Text()\<close>.\<close>

definition parseLine :: "Env \<Rightarrow> string \<Rightarrow> parseState \<Rightarrow> parseState" where
  "parseLine env raw st =
     (let line = TrimSpace raw in
      if commentLine line then st
      else if hostsLine line then st
      else if cosmeticLine line then st
      else (case allowRuleRegex line of
          Some m \<Rightarrow> addWildcardRule env True m st
        | None \<Rightarrow>
       (case blockRuleRegex line of
          Some m \<Rightarrow> addWildcardRule env False m st
        | None \<Rightarrow>
       (case regexRuleRegex line of
          Some regexPattern \<Rightarrow>
            if regexpCompiles env regexPattern
            then addDenyRule env (''regexp:'' @ regexPattern) st
            else st
        | None \<Rightarrow>
       (case fullMatchRegex line of
          Some domainStr \<Rightarrow>
            if Contains domainStr ''.'' \<and> \<not> HasPrefix domainStr ''*''
               \<and> \<not> HasSuffix domainStr ''*''
            then addDenyRule env (''full:'' @ domainStr) st
            else st
        | None \<Rightarrow> st)))))"

text \<open>
  The reader, as \<^verbatim>\<open>bufio.Scanner\<close> delivers it: the lines it scans, and the error
  \<^verbatim>\<open>scanner.Err()\<close> reports once scanning has stopped.
\<close>

type_synonym Reader = "string list \<times> error option"

definition parseRules ::
  "Env \<Rightarrow> Reader \<Rightarrow> MixMatcher \<Rightarrow> MixMatcher \<Rightarrow> parseState \<times> error option" where
  "parseRules env reader allowM denyM =
     (foldl (\<lambda>st raw. parseLine env raw st) (allowM, denyM, 0) (fst reader), snd reader)"

subsection \<open>The plugin and its decision function\<close>

text \<open>\<^verbatim>\<open>IsZero\<close> is equality with the zero time, and \<^verbatim>\<open>time.Time{}\<close> is the zero
  time.\<close>

definition IsZero :: "Time \<Rightarrow> bool" where
  "IsZero t = (t = 0)"

record OnlineRule =
  ID :: string
  Name :: string
  URL :: string
  Enabled :: bool
  AutoUpdate :: bool
  UpdateIntervalHours :: int
  RuleCount :: int
  LastUpdated :: Time
  localPath :: string

text \<open>
  The map \<^verbatim>\<open>onlineRules\<close> is an association list with at most one entry for a key:
  the order of the entries stands for the order in which Go happens to iterate over the map,
  which is any order. Every pointer stored in the map is to a rule of its own (allocated by
  the JSON decoder or by the POST handler), so the rules are stored by value.
\<close>

record AdguardRule =
  dir :: string
  configFile :: string
  onlineRules :: "(string \<times> OnlineRule) list"
  allowMatcher :: MixMatcher
  denyMatcher :: MixMatcher

text \<open>\<^verbatim>\<open>Match\<close> returns \<^verbatim>\<open>(struct{}{}, ok)\<close>; the model returns \<open>ok\<close>, which the
  specification calls \<open>blocked\<close>.\<close>

definition Match :: "Env \<Rightarrow> AdguardRule \<Rightarrow> string \<Rightarrow> bool" where
  "Match env p domainStr =
     (if MixMatcher_Match env (allowMatcher p) domainStr then False
      else if MixMatcher_Match env (denyMatcher p) domainStr then True
      else False)"

text \<open>An environment and a plugin for the examples: every pattern compiles, no pattern
  matches, paths are joined with a slash, the zero time is written as Go writes it, and any
  other time is written in unary, with a minus sign when it is negative.\<close>

definition demoFormatTime :: "Time \<Rightarrow> string option" where
  "demoFormatTime t =
     Some (if t = 0 then ''0001-01-01T00:00:00Z''
           else if t < 0 then CHR ''-'' # replicate (nat (- t)) (CHR ''I'')
           else replicate (nat t) (CHR ''I''))"

definition demoParseTime :: "string \<Rightarrow> Time option" where
  "demoParseTime s =
     (if s = ''0001-01-01T00:00:00Z'' then Some 0
      else if HasPrefix s ''-'' then Some (- int (length s - 1))
      else Some (int (length s)))"

definition demoEnv :: Env where
  "demoEnv = \<lparr>regexpCompiles = (\<lambda>p. True), regexpMatches = (\<lambda>p q. False),
     filepathJoin = (\<lambda>d n. d @ ''/'' @ n),
     formatTime = demoFormatTime, parseTime = demoParseTime\<rparr>"

definition demoMatchers :: AdguardRule where
  "demoMatchers = \<lparr>dir = ''/etc/mosdns/adguard'', configFile = ''/etc/mosdns/adguard/config.json'',
     onlineRules = [],
     allowMatcher = \<lparr>mm_full = [], mm_domain = [''safe.example.com''], mm_regexp = []\<rparr>,
     denyMatcher = \<lparr>mm_full = [], mm_domain = [''example.com''], mm_regexp = []\<rparr>\<rparr>"

subsection \<open>Allow precedence\<close>

text \<open>
  Claim C1. For every pair of matchers the plugin holds and every domain: when the allow
  matcher matches the domain, \<open>Match\<close> answers not blocked, also when the deny matcher
  matches it too; otherwise, when the deny matcher matches, \<open>Match\<close> answers blocked; and
  when neither matches, \<open>Match\<close> answers not blocked.
\<close>

theorem Match_allow_precedence:
  "(MixMatcher_Match env (allowMatcher p) d \<longrightarrow> \<not> Match env p d) \<and>
   (\<not> MixMatcher_Match env (allowMatcher p) d \<and> MixMatcher_Match env (denyMatcher p) d
      \<longrightarrow> Match env p d) \<and>
   (\<not> MixMatcher_Match env (allowMatcher p) d \<and> \<not> MixMatcher_Match env (denyMatcher p) d
      \<longrightarrow> \<not> Match env p d)"
  by (simp add: Match_def)

lemma demoMatch_both:
  "MixMatcher_Match demoEnv (allowMatcher demoMatchers) ''safe.example.com''"
  "MixMatcher_Match demoEnv (denyMatcher demoMatchers) ''safe.example.com''"
  by (simp_all add: MixMatcher_Match_def demoMatchers_def domainMatches_def fullMatches_def demoEnv_def suffix_to_prefix)

theorem Match_allow_precedence_witness:
  "MixMatcher_Match demoEnv (allowMatcher demoMatchers) ''safe.example.com'' \<and>
   MixMatcher_Match demoEnv (denyMatcher demoMatchers) ''safe.example.com'' \<and>
   \<not> Match demoEnv demoMatchers ''safe.example.com'' \<and>
   \<not> MixMatcher_Match demoEnv (allowMatcher demoMatchers) ''ads.example.com'' \<and>
   MixMatcher_Match demoEnv (denyMatcher demoMatchers) ''ads.example.com'' \<and>
   Match demoEnv demoMatchers ''ads.example.com'' \<and>
   \<not> MixMatcher_Match demoEnv (allowMatcher demoMatchers) ''example.org'' \<and>
   \<not> MixMatcher_Match demoEnv (denyMatcher demoMatchers) ''example.org'' \<and>
   \<not> Match demoEnv demoMatchers ''example.org''"
  using Match_allow_precedence [of demoEnv demoMatchers "''safe.example.com''"]
    Match_allow_precedence [of demoEnv demoMatchers "''ads.example.com''"]
    Match_allow_precedence [of demoEnv demoMatchers "''example.org''"]
  by (simp add: MixMatcher_Match_def demoMatchers_def domainMatches_def fullMatches_def demoEnv_def suffix_to_prefix)

subsection \<open>The rule \<^verbatim>\<open>||*.tracker.net^\<close>\<close>

lemma tracker_line_facts:
  "TrimSpace ''||*.tracker.net^'' = ''||*.tracker.net^''"
  "commentLine ''||*.tracker.net^'' = False"
  "hostsLine ''||*.tracker.net^'' = False"
  "cosmeticLine ''||*.tracker.net^'' = False"
  "allowRuleRegex ''||*.tracker.net^'' = None"
  "blockRuleRegex ''||*.tracker.net^'' = Some ''*.tracker.net''"
  "cleanDomain ''*.tracker.net'' = ''tracker.net''"
  "convertToMosdnsRule ''tracker.net'' = ''domain:tracker.net''"
  "HasPrefix ''domain:tracker.net'' ''regexp:'' = False"
  "HasPrefix ''domain:tracker.net'' ''full:'' = False"
  "HasPrefix ''domain:tracker.net'' ''domain:'' = True"
  "TrimPrefix ''domain:tracker.net'' ''domain:'' = ''tracker.net''"
  by code_simp+

lemma parseLine_tracker:
  "parseLine env ''||*.tracker.net^'' (allowM, denyM, n) =
     (allowM, denyM\<lparr>mm_domain := mm_domain denyM @ [''tracker.net'']\<rparr>, n + 1)"
  by (simp add: parseLine_def tracker_line_facts addWildcardRule_def MixMatcher_Add_def)

text \<open>
  Claim C2, as amended. \<open>cleanDomain\<close> strips the leading \<^verbatim>\<open>*.\<close> of the extracted
  domain \<^verbatim>\<open>*.tracker.net\<close>, so no \<^verbatim>\<open>*\<close> is left when \<open>convertToMosdnsRule\<close> looks
  for one: the line adds the rule \<^verbatim>\<open>domain:tracker.net\<close> to the deny builder, not a
  \<^verbatim>\<open>regexp:\<close> rule, and counts as one rule. With the suffix semantics of
  \<^verbatim>\<open>domain:\<close> rules, that rule matches \<^verbatim>\<open>x.tracker.net\<close>, \<^verbatim>\<open>y.z.tracker.net\<close>
  and \<^verbatim>\<open>tracker.net\<close> itself.
\<close>

theorem wildcard_rule_becomes_domain_rule:
  "cleanDomain ''*.tracker.net'' = ''tracker.net'' \<and>
   convertToMosdnsRule (cleanDomain ''*.tracker.net'') = ''domain:tracker.net'' \<and>
   parseRules env ([''||*.tracker.net^''], None) allowM denyM =
     ((allowM, denyM\<lparr>mm_domain := mm_domain denyM @ [''tracker.net'']\<rparr>, 1), None) \<and>
   MixMatcher_Match env (NewDomainMixMatcher\<lparr>mm_domain := [''tracker.net'']\<rparr>) ''x.tracker.net'' \<and>
   MixMatcher_Match env (NewDomainMixMatcher\<lparr>mm_domain := [''tracker.net'']\<rparr>) ''y.z.tracker.net'' \<and>
   MixMatcher_Match env (NewDomainMixMatcher\<lparr>mm_domain := [''tracker.net'']\<rparr>) ''tracker.net''"
  by (simp add: parseRules_def parseLine_tracker tracker_line_facts MixMatcher_Match_def
      NewDomainMixMatcher_def domainMatches_def suffix_to_prefix)

text \<open>
  Claim C2 as the specification states it (scenario S3) fails: after parsing the line into
  fresh builders, the deny builder holds no \<^verbatim>\<open>regexp:\<close> rule at all, and it does match
  \<^verbatim>\<open>tracker.net\<close>.
\<close>

theorem wildcard_rule_counterexample:
  "mm_regexp (fst (snd (fst (parseRules demoEnv ([''||*.tracker.net^''], None)
      NewDomainMixMatcher NewDomainMixMatcher)))) = [] \<and>
   MixMatcher_Match demoEnv (fst (snd (fst (parseRules demoEnv ([''||*.tracker.net^''], None)
      NewDomainMixMatcher NewDomainMixMatcher)))) ''tracker.net''"
  by (simp add: parseRules_def parseLine_tracker MixMatcher_Match_def
      NewDomainMixMatcher_def domainMatches_def)

subsection \<open>Lines the parser skips\<close>

lemma parseLine_skip:
  "commentLine (TrimSpace raw) \<or> hostsLine (TrimSpace raw) \<or> cosmeticLine (TrimSpace raw)
    \<Longrightarrow> parseLine env raw st = st"
  by (auto simp: parseLine_def Let_def)

lemma sample_lines_skipped:
  "commentLine (TrimSpace ''! comment'')"
  "commentLine (TrimSpace ''# note'')"
  "hostsLine (TrimSpace ''0.0.0.0 bad.com evil.com'')"
  "cosmeticLine (TrimSpace ''bad.com##div.ad'')"
  by code_simp+

text \<open>
  Claim C3. A line that, once trimmed, is empty or begins with \<^verbatim>\<open>!\<close> or \<^verbatim>\<open>#\<close>, or
  contains \<^verbatim>\<open>#?#\<close>, \<^verbatim>\<open>##\<close> or \<^verbatim>\<open>$$\<close>, or contains a digit and one of
  \<^verbatim>\<open>127.0.0.1\<close>, \<^verbatim>\<open>0.0.0.0\<close>, \<^verbatim>\<open>::\<close> and has more than one white space separated
  field, leaves both builders and the count as they were. The four lines of scenario S4
  produce no rule: the builders come back unchanged and the count is 0.
\<close>

theorem skipped_lines_add_nothing:
  "(commentLine (TrimSpace raw) \<or> hostsLine (TrimSpace raw) \<or> cosmeticLine (TrimSpace raw)
      \<longrightarrow> parseLine env raw st = st) \<and>
   parseRules env ([''! comment'', ''# note'', ''0.0.0.0 bad.com evil.com'', ''bad.com##div.ad''],
      err) allowM denyM = ((allowM, denyM, 0), err)"
  by (simp add: parseRules_def parseLine_skip sample_lines_skipped)

theorem skipped_lines_add_nothing_witness:
  "hostsLine (TrimSpace ''  127.0.0.1   localhost  '') \<and>
   parseLine demoEnv ''  127.0.0.1   localhost  '' (NewDomainMixMatcher, NewDomainMixMatcher, 7)
     = (NewDomainMixMatcher, NewDomainMixMatcher, 7)"
proof -
  have h: "hostsLine (TrimSpace ''  127.0.0.1   localhost  '')" by code_simp
  with skipped_lines_add_nothing [of "''  127.0.0.1   localhost  ''" demoEnv
      "(NewDomainMixMatcher, NewDomainMixMatcher, 7)"]
  show ?thesis by simp
qed

section \<open>Persistence of the manifest\<close>

subsection \<open>JSON documents\<close>

text \<open>
  \<^verbatim>\<open>encoding/json\<close> is modelled at the level of the document: a number is an integer
  (the manifest has no other), and the members of an object are in the order in which they
  are written. Strings are left as they are: the strings the plugin holds come from the JSON
  decoder or from the UUID generator, and the encoder writes such strings back unchanged.
\<close>

datatype json =
    JNull
  | JBool bool
  | JNumber int
  | JString string
  | JArray "json list"
  | JObject "(string \<times> json) list"

text \<open>The fields of \<^verbatim>\<open>onlineRuleAlias\<close> but the last, under the names of their tags;
  \<^verbatim>\<open>localPath\<close> is not exported and is never written.\<close>

definition aliasFields :: "OnlineRule \<Rightarrow> (string \<times> json) list" where
  "aliasFields rule =
     [(''id'', JString (ID rule)),
      (''name'', JString (Name rule)),
      (''url'', JString (URL rule)),
      (''enabled'', JBool (Enabled rule)),
      (''auto_update'', JBool (AutoUpdate rule)),
      (''update_interval_hours'', JNumber (UpdateIntervalHours rule)),
      (''rule_count'', JNumber (RuleCount rule))]"

text \<open>\<^verbatim>\<open>json.Marshal((*onlineRuleAlias)(rule))\<close>: the encoding of the struct by its
  tags, which is also how \<^verbatim>\<open>json\<close> encodes an \<^verbatim>\<open>OnlineRule\<close> passed by value
  (\<^verbatim>\<open>MarshalJSON\<close> has a pointer receiver, and a value in an interface is not
  addressable).\<close>

definition marshalAlias :: "Env \<Rightarrow> OnlineRule \<Rightarrow> json option" where
  "marshalAlias env rule =
     (case formatTime env (LastUpdated rule) of
        None \<Rightarrow> None
      | Some s \<Rightarrow> Some (JObject (aliasFields rule @ [(''last_updated'', JString s)])))"

text \<open>\<^verbatim>\<open>MarshalJSON\<close>. In the struct of the first branch the outer field
  \<^verbatim>\<open>LastUpdated\<close> hides the embedded one of the same JSON name, and it is a nil pointer
  tagged \<^verbatim>\<open>omitempty\<close>, so the member is left out.\<close>

definition MarshalJSON :: "Env \<Rightarrow> OnlineRule \<Rightarrow> json option" where
  "MarshalJSON env rule =
     (if IsZero (LastUpdated rule) then Some (JObject (aliasFields rule))
      else marshalAlias env rule)"

fun marshalRules :: "Env \<Rightarrow> OnlineRule list \<Rightarrow> json list option" where
  "marshalRules env [] = Some []"
| "marshalRules env (rule # rules) =
     (case MarshalJSON env rule of
        None \<Rightarrow> None
      | Some j \<Rightarrow> (case marshalRules env rules of None \<Rightarrow> None | Some js \<Rightarrow> Some (j # js)))"

text \<open>
  Decoding into an \<^verbatim>\<open>OnlineRule\<close>. A member is matched to the field whose tag equals
  its name under Go's folding of names: the case of ASCII letters is ignored, and the two
  other runes that fold to an ASCII letter count as that letter, U+017F (bytes C5 BF) as
  \<^verbatim>\<open>s\<close> and U+212A (bytes E2 84 AA) as \<^verbatim>\<open>k\<close>. A member of another name is
  skipped, \<^verbatim>\<open>null\<close> leaves a field as it is, a value of the wrong kind or a number
  outside the range of \<^verbatim>\<open>int\<close> is an error, and of two members for one field the later
  one wins. None stands for the error \<^verbatim>\<open>Unmarshal\<close> returns.
\<close>

fun foldName :: "string \<Rightarrow> string" where
  "foldName [] = []"
| "foldName (c # cs) =
     (if c = CHR 0xC5 \<and> prefix [CHR 0xBF] cs then CHR ''s'' # foldName (drop 1 cs)
      else if c = CHR 0xE2 \<and> prefix [CHR 0x84, CHR 0xAA] cs then CHR ''k'' # foldName (drop 2 cs)
      else lowerASCII c # foldName cs)"

definition inInt64 :: "int \<Rightarrow> bool" where
  "inInt64 n = (- (2 ^ 63) \<le> n \<and> n < 2 ^ 63)"

definition setField :: "Env \<Rightarrow> string \<Rightarrow> json \<Rightarrow> OnlineRule \<Rightarrow> OnlineRule option" where
  "setField env key v r =
     (let k = foldName key in
      if k \<notin> set [''id'', ''name'', ''url'', ''enabled'', ''auto_update'',
                    ''update_interval_hours'', ''rule_count'', ''last_updated'']
      then Some r
      else (case v of
          JNull \<Rightarrow> Some r
        | JString s \<Rightarrow>
            if k = ''id'' then Some (r\<lparr>ID := s\<rparr>)
            else if k = ''name'' then Some (r\<lparr>Name := s\<rparr>)
            else if k = ''url'' then Some (r\<lparr>URL := s\<rparr>)
            else if k = ''last_updated'' then
              (case parseTime env s of None \<Rightarrow> None | Some t \<Rightarrow> Some (r\<lparr>LastUpdated := t\<rparr>))
            else None
        | JBool b \<Rightarrow>
            if k = ''enabled'' then Some (r\<lparr>Enabled := b\<rparr>)
            else if k = ''auto_update'' then Some (r\<lparr>AutoUpdate := b\<rparr>)
            else None
        | JNumber n \<Rightarrow>
            if k = ''update_interval_hours'' \<and> inInt64 n then Some (r\<lparr>UpdateIntervalHours := n\<rparr>)
            else if k = ''rule_count'' \<and> inInt64 n then Some (r\<lparr>RuleCount := n\<rparr>)
            else None
        | JArray js \<Rightarrow> None
        | JObject ms \<Rightarrow> None))"

fun setFields :: "Env \<Rightarrow> (string \<times> json) list \<Rightarrow> OnlineRule \<Rightarrow> OnlineRule option" where
  "setFields env [] r = Some r"
| "setFields env ((key, v) # ms) r =
     (case setField env key v r of None \<Rightarrow> None | Some r' \<Rightarrow> setFields env ms r')"

definition zeroRule :: OnlineRule where
  "zeroRule = \<lparr>ID = [], Name = [], URL = [], Enabled = False, AutoUpdate = False,
     UpdateIntervalHours = 0, RuleCount = 0, LastUpdated = 0, localPath = []\<rparr>"

text \<open>Decoding a document into the struct \<open>r\<close>.\<close>

definition unmarshalRule :: "Env \<Rightarrow> json \<Rightarrow> OnlineRule \<Rightarrow> OnlineRule option" where
  "unmarshalRule env j r =
     (case j of JNull \<Rightarrow> Some r | JObject ms \<Rightarrow> setFields env ms r | _ \<Rightarrow> None)"

text \<open>Decoding into \<^verbatim>\<open>[]*OnlineRule\<close>: an element \<^verbatim>\<open>null\<close> is a nil pointer (None
  in the list), any other element is decoded into a new zero struct.\<close>

fun unmarshalElems :: "Env \<Rightarrow> json list \<Rightarrow> OnlineRule option list option" where
  "unmarshalElems env [] = Some []"
| "unmarshalElems env (j # js) =
     (if j = JNull then
        (case unmarshalElems env js of None \<Rightarrow> None | Some rs \<Rightarrow> Some (None # rs))
      else
        (case unmarshalRule env j zeroRule of
           None \<Rightarrow> None
         | Some r \<Rightarrow>
             (case unmarshalElems env js of None \<Rightarrow> None | Some rs \<Rightarrow> Some (Some r # rs))))"

definition unmarshalRules :: "Env \<Rightarrow> json \<Rightarrow> OnlineRule option list option" where
  "unmarshalRules env j =
     (case j of JNull \<Rightarrow> Some [] | JArray js \<Rightarrow> unmarshalElems env js | _ \<Rightarrow> None)"

subsection \<open>saveConfig and loadConfig\<close>

text \<open>
  What \<^verbatim>\<open>os.ReadFile\<close> finds at \<^verbatim>\<open>config.json\<close>: no file, a file that cannot be
  read, bytes that are not JSON, or a document.
\<close>

datatype fileRead = NotExist | Unreadable | NotJSON | Document json

text \<open>
  \<open>saveConfig\<close> returns the document it has put at \<^verbatim>\<open>config.json\<close>. Whether the
  temporary file can be written and renamed is an input. \<^verbatim>\<open>sort.Slice\<close> is not stable;
  the keys of the map are the ids of the rules, so no two rules compare equal and the sorted
  list is the one \<open>sort_key\<close> computes.
\<close>

definition saveConfig :: "Env \<Rightarrow> bool \<Rightarrow> bool \<Rightarrow> AdguardRule \<Rightarrow> error + json" where
  "saveConfig env writeOk renameOk p =
     (let rules = sort_key ID (map snd (onlineRules p)) in
      case marshalRules env rules of
        None \<Rightarrow> Inl MarshalFailed
      | Some js \<Rightarrow>
          if \<not> writeOk then Inl WriteTmpFailed
          else if \<not> renameOk then Inl RenameFailed
          else Inr (JArray js))"

text \<open>The loop of \<open>loadConfig\<close> over the decoded rules; a nil pointer panics at
  \<^verbatim>\<open>rule.localPath\<close>.\<close>

fun loadRules ::
  "Env \<Rightarrow> string \<Rightarrow> OnlineRule option list \<Rightarrow> (string \<times> OnlineRule) list
     \<Rightarrow> error + (string \<times> OnlineRule) list" where
  "loadRules env d [] m = Inr m"
| "loadRules env d (None # rules) m = Inl NilDereference"
| "loadRules env d (Some rule # rules) m =
     loadRules env d rules
       (AList.update (ID rule) (rule\<lparr>localPath := filepathJoin env d (ID rule @ ''.rules'')\<rparr>) m)"

definition loadConfig :: "Env \<Rightarrow> fileRead \<Rightarrow> AdguardRule \<Rightarrow> error + AdguardRule" where
  "loadConfig env file p =
     (case file of
        NotExist \<Rightarrow> Inr p
      | Unreadable \<Rightarrow> Inl ReadFailed
      | NotJSON \<Rightarrow> Inl ParseConfigFailed
      | Document j \<Rightarrow>
          (case unmarshalRules env j of
             None \<Rightarrow> Inl ParseConfigFailed
           | Some rules \<Rightarrow>
               (case loadRules env (dir p) rules [] of
                  Inl e \<Rightarrow> Inl e
                | Inr m \<Rightarrow> Inr (p\<lparr>onlineRules := m\<rparr>))))"

text \<open>
  What holds of the rule set whenever the plugin is at rest: a key has one entry, the key of
  an entry is the id of its rule, the path of a rule is derived from its id, and the two
  integers are values of Go's \<^verbatim>\<open>int\<close>. The last section shows that \<open>loadConfig\<close>
  establishes it and that the handlers of the API and the refresh of the counts keep it.
\<close>

definition ruleOk :: "Env \<Rightarrow> string \<Rightarrow> string \<times> OnlineRule \<Rightarrow> bool" where
  "ruleOk env d kr =
     (ID (snd kr) = fst kr
      \<and> localPath (snd kr) = filepathJoin env d (fst kr @ ''.rules'')
      \<and> inInt64 (UpdateIntervalHours (snd kr)) \<and> inInt64 (RuleCount (snd kr)))"

definition rulesOk :: "Env \<Rightarrow> AdguardRule \<Rightarrow> bool" where
  "rulesOk env p =
     (distinct (map fst (onlineRules p)) \<and> list_all (ruleOk env (dir p)) (onlineRules p))"

text \<open>What the model asks of the library: a text that \<^verbatim>\<open>Time.MarshalJSON\<close> has written
  is read back by \<^verbatim>\<open>Time.UnmarshalJSON\<close> as the same instant.\<close>

definition timeRoundTrip :: "Env \<Rightarrow> bool" where
  "timeRoundTrip env = (\<forall>t s. formatTime env t = Some s \<longrightarrow> parseTime env s = Some t)"

text \<open>The member of a name in an object, and the ids of the entries of a manifest, in the
  order of the manifest.\<close>

definition memberOf :: "string \<Rightarrow> json \<Rightarrow> json option" where
  "memberOf k j = (case j of JObject ms \<Rightarrow> map_of ms k | _ \<Rightarrow> None)"

definition manifestIds :: "json \<Rightarrow> json option list" where
  "manifestIds doc = (case doc of JArray js \<Rightarrow> map (memberOf ''id'') js | _ \<Rightarrow> [])"

text \<open>Two rule lists for the examples: one never downloaded, one downloaded at instant 5.\<close>

definition demoRuleA :: OnlineRule where
  "demoRuleA = \<lparr>ID = ''a1'', Name = ''ads'', URL = ''https://example.org/ads.txt'',
     Enabled = True, AutoUpdate = True, UpdateIntervalHours = 24, RuleCount = 3,
     LastUpdated = 0, localPath = ''/etc/mosdns/adguard/a1.rules''\<rparr>"

definition demoRuleB :: OnlineRule where
  "demoRuleB = \<lparr>ID = ''b2'', Name = ''trackers'', URL = ''https://example.org/t.txt'',
     Enabled = False, AutoUpdate = False, UpdateIntervalHours = 0, RuleCount = 0,
     LastUpdated = 5, localPath = ''/etc/mosdns/adguard/b2.rules''\<rparr>"

definition demoPlugin :: AdguardRule where
  "demoPlugin = demoMatchers\<lparr>onlineRules := [(''b2'', demoRuleB), (''a1'', demoRuleA)]\<rparr>"

subsection \<open>Decoding what the encoder wrote\<close>

lemma tag_names_lower:
  "lowerASCII (CHR ''_'') = CHR ''_''"
  "lowerASCII (CHR ''a'') = CHR ''a''"
  "lowerASCII (CHR ''b'') = CHR ''b''"
  "lowerASCII (CHR ''c'') = CHR ''c''"
  "lowerASCII (CHR ''d'') = CHR ''d''"
  "lowerASCII (CHR ''e'') = CHR ''e''"
  "lowerASCII (CHR ''h'') = CHR ''h''"
  "lowerASCII (CHR ''i'') = CHR ''i''"
  "lowerASCII (CHR ''l'') = CHR ''l''"
  "lowerASCII (CHR ''m'') = CHR ''m''"
  "lowerASCII (CHR ''n'') = CHR ''n''"
  "lowerASCII (CHR ''o'') = CHR ''o''"
  "lowerASCII (CHR ''p'') = CHR ''p''"
  "lowerASCII (CHR ''r'') = CHR ''r''"
  "lowerASCII (CHR ''s'') = CHR ''s''"
  "lowerASCII (CHR ''t'') = CHR ''t''"
  "lowerASCII (CHR ''u'') = CHR ''u''"
  "lowerASCII (CHR ''v'') = CHR ''v''"
  by code_simp+

lemma setFields_append:
  "setFields env (xs @ ys) r =
     (case setFields env xs r of None \<Rightarrow> None | Some r' \<Rightarrow> setFields env ys r')"
  by (induction xs arbitrary: r) (auto split: option.splits)

lemma setFields_aliasFields:
  assumes "inInt64 (UpdateIntervalHours r)" "inInt64 (RuleCount r)"
  shows "setFields env (aliasFields r) zeroRule = Some (r\<lparr>LastUpdated := 0, localPath := []\<rparr>)"
  using assms
  by (cases r) (simp add: aliasFields_def setField_def tag_names_lower zeroRule_def)

lemma setField_last_updated:
  "parseTime env s = Some t \<Longrightarrow>
     setField env ''last_updated'' (JString s) r = Some (r\<lparr>LastUpdated := t\<rparr>)"
  by (simp add: setField_def tag_names_lower)

lemma unmarshal_MarshalJSON:
  assumes rt: "timeRoundTrip env"
    and rng: "inInt64 (UpdateIntervalHours r)" "inInt64 (RuleCount r)"
    and m: "MarshalJSON env r = Some j"
  shows "unmarshalRule env j zeroRule = Some (r\<lparr>localPath := []\<rparr>) \<and> j \<noteq> JNull"
proof (cases "IsZero (LastUpdated r)")
  case True
  then have "j = JObject (aliasFields r)" using m by (simp add: MarshalJSON_def)
  moreover have "r\<lparr>LastUpdated := 0, localPath := []\<rparr> = r\<lparr>localPath := []\<rparr>"
    using True by (cases r) (simp add: IsZero_def)
  ultimately show ?thesis
    using setFields_aliasFields [OF rng, of env] by (simp add: unmarshalRule_def)
next
  case False
  then obtain s where s: "formatTime env (LastUpdated r) = Some s"
      and j: "j = JObject (aliasFields r @ [(''last_updated'', JString s)])"
    using m by (auto simp: MarshalJSON_def marshalAlias_def split: option.splits)
  from rt s have "parseTime env s = Some (LastUpdated r)" by (simp add: timeRoundTrip_def)
  then have "setField env ''last_updated'' (JString s) (r\<lparr>LastUpdated := 0, localPath := []\<rparr>)
      = Some (r\<lparr>localPath := []\<rparr>)"
    by (cases r) (simp add: setField_last_updated)
  then show ?thesis
    using setFields_aliasFields [OF rng, of env] j
    by (simp add: unmarshalRule_def setFields_append)
qed

lemma unmarshal_marshalRules:
  assumes rt: "timeRoundTrip env"
  shows "list_all (\<lambda>r. inInt64 (UpdateIntervalHours r) \<and> inInt64 (RuleCount r)) rs \<Longrightarrow>
     marshalRules env rs = Some js \<Longrightarrow>
     unmarshalElems env js = Some (map (\<lambda>r. Some (r\<lparr>localPath := []\<rparr>)) rs)"
proof (induction rs arbitrary: js)
  case Nil
  then show ?case by simp
next
  case (Cons r rs)
  from Cons.prems obtain j js' where j: "MarshalJSON env r = Some j"
      and js': "marshalRules env rs = Some js'" and js: "js = j # js'"
    by (auto split: option.splits)
  from Cons.prems have rng: "inInt64 (UpdateIntervalHours r)" "inInt64 (RuleCount r)"
    and rest: "list_all (\<lambda>r. inInt64 (UpdateIntervalHours r) \<and> inInt64 (RuleCount r)) rs"
    by simp_all
  from unmarshal_MarshalJSON [OF rt rng j] Cons.IH [OF rest js'] js
  show ?case by simp
qed

lemma loadRules_map_of:
  assumes "\<And>r. ID (g r) = ID r"
  shows "distinct (map ID rs) \<Longrightarrow>
    \<exists>m'. loadRules env d (map (\<lambda>r. Some (g r)) rs) m = Inr m' \<and>
      map_of m' = map_of m ++
        map_of (map (\<lambda>r. (ID r, (g r)\<lparr>localPath := filepathJoin env d (ID r @ ''.rules'')\<rparr>)) rs) \<and>
      (distinct (map fst m) \<longrightarrow> distinct (map fst m')) \<and>
      fst ` set m' = fst ` set m \<union> ID ` set rs"
proof (induction rs arbitrary: m)
  case Nil
  then show ?case by simp
next
  case (Cons r rs)
  let ?v = "(g r)\<lparr>localPath := filepathJoin env d (ID r @ ''.rules'')\<rparr>"
  from Cons.prems have d: "distinct (map ID rs)" and notin: "ID r \<notin> ID ` set rs" by auto
  from Cons.IH [OF d, of "AList.update (ID r) ?v m"]
  obtain m' where m': "loadRules env d (map (\<lambda>r. Some (g r)) rs) (AList.update (ID r) ?v m) = Inr m'"
    and mo: "map_of m' = map_of (AList.update (ID r) ?v m) ++
        map_of (map (\<lambda>r. (ID r, (g r)\<lparr>localPath := filepathJoin env d (ID r @ ''.rules'')\<rparr>)) rs)"
    and di: "distinct (map fst (AList.update (ID r) ?v m)) \<longrightarrow> distinct (map fst m')"
    and ks: "fst ` set m' = fst ` set (AList.update (ID r) ?v m) \<union> ID ` set rs"
    by blast
  have nd: "ID r \<notin> dom (map_of (map (\<lambda>r. (ID r, (g r)\<lparr>localPath := filepathJoin env d (ID r @ ''.rules'')\<rparr>)) rs))"
    using notin by (auto simp: dom_map_of_conv_image_fst image_image)
  have "map_of m' = map_of m ++
        map_of (map (\<lambda>r. (ID r, (g r)\<lparr>localPath := filepathJoin env d (ID r @ ''.rules'')\<rparr>)) (r # rs))"
    unfolding mo using nd
    by (auto simp: update_conv' map_add_def fun_eq_iff split: option.splits)
  moreover have "loadRules env d (map (\<lambda>r. Some (g r)) (r # rs)) m = Inr m'"
    using m' assms by simp
  moreover have "distinct (map fst m) \<longrightarrow> distinct (map fst m')"
    using di by (simp add: distinct_update)
  moreover have "fst ` set m' = fst ` set m \<union> ID ` set (r # rs)"
    using ks by (auto simp: dom_update)
  ultimately show ?case by blast
qed

subsection \<open>The zero time is left out\<close>

text \<open>
  Where a rule list is encoded through \<open>MarshalJSON\<close> (the manifest, and the responses
  of GET and PUT, which encode pointers), one whose \<^verbatim>\<open>last_updated\<close> is the zero time
  is serialized as an object of the seven other members, with no member
  \<^verbatim>\<open>last_updated\<close>; decoding that object into a new rule list gives the fields back, and
  \<^verbatim>\<open>last_updated\<close> is the zero time again. The two integers are values of Go's
  \<^verbatim>\<open>int\<close>. The response of POST does not go through \<open>MarshalJSON\<close>; the section on
  the control API shows what it writes.
\<close>

lemma MarshalJSON_omits_zero_time:
  assumes "IsZero (LastUpdated rule)"
    and "inInt64 (UpdateIntervalHours rule)" and "inInt64 (RuleCount rule)"
  shows "\<exists>ms. MarshalJSON env rule = Some (JObject ms) \<and>
           map fst ms = [''id'', ''name'', ''url'', ''enabled'', ''auto_update'',
                         ''update_interval_hours'', ''rule_count''] \<and>
           memberOf ''last_updated'' (JObject ms) = None \<and>
           unmarshalRule env (JObject ms) zeroRule = Some (rule\<lparr>localPath := []\<rparr>) \<and>
           IsZero (LastUpdated (rule\<lparr>localPath := []\<rparr>))"
proof -
  have m: "MarshalJSON env rule = Some (JObject (aliasFields rule))"
    using assms(1) by (simp add: MarshalJSON_def)
  have names: "map fst (aliasFields rule) = [''id'', ''name'', ''url'', ''enabled'',
      ''auto_update'', ''update_interval_hours'', ''rule_count'']"
    by (simp add: aliasFields_def)
  have absent: "memberOf ''last_updated'' (JObject (aliasFields rule)) = None"
    by (simp add: memberOf_def aliasFields_def)
  have decoded: "unmarshalRule env (JObject (aliasFields rule)) zeroRule = Some (rule\<lparr>localPath := []\<rparr>)"
    using setFields_aliasFields [OF assms(2,3), of env] assms(1)
    by (cases rule) (simp add: unmarshalRule_def IsZero_def)
  show ?thesis using m names absent decoded assms(1) by simp
qed

subsection \<open>Saving, then loading\<close>

lemma map_insort_key: "map f (insort_key f x xs) = insort (f x) (map f xs)"
  by (induction xs) simp_all

lemma map_sort_key: "map f (sort_key f xs) = sort (map f xs)"
  by (induction xs) (simp_all add: map_insort_key)

lemma marshalRules_ids:
  "marshalRules env rs = Some js \<Longrightarrow> map (memberOf ''id'') js = map (\<lambda>r. Some (JString (ID r))) rs"
proof (induction rs arbitrary: js)
  case Nil
  then show ?case by simp
next
  case (Cons r rs)
  from Cons.prems obtain j js' where j: "MarshalJSON env r = Some j"
      and js': "marshalRules env rs = Some js'" and js: "js = j # js'"
    by (auto split: option.splits)
  have "memberOf ''id'' j = Some (JString (ID r))"
    using j by (auto simp: MarshalJSON_def marshalAlias_def memberOf_def aliasFields_def
        split: if_splits option.splits)
  with Cons.IH [OF js'] js show ?case by simp
qed

lemma rulesOk_entry:
  "rulesOk env p \<Longrightarrow> (k, r) \<in> set (onlineRules p) \<Longrightarrow> ruleOk env (dir p) (k, r)"
  by (auto simp: rulesOk_def list_all_iff)

text \<open>
  Claim C6. When \<open>saveConfig\<close> succeeds on a rule set, \<open>loadConfig\<close> on the manifest
  it wrote, run by any plugin \<open>p0\<close> of the same working directory, whatever rule set that
  plugin holds before (the empty one of a new plugin, for one), succeeds and leaves it with
  the rule set that was saved: the same ids, each with the same rule, all fields equal (the
  path included, which is derived again from the id); nothing else of \<open>p0\<close> changes. The
  entries of the manifest are in ascending order of id, without repetition.
\<close>

theorem save_then_load_round_trip:
  assumes rt: "timeRoundTrip env" and ok: "rulesOk env p"
    and save: "saveConfig env writeOk renameOk p = Inr doc"
    and same_dir: "dir p0 = dir p"
  shows "\<exists>p'. loadConfig env (Document doc) p0 = Inr p' \<and>
           map_of (onlineRules p') = map_of (onlineRules p) \<and>
           p'\<lparr>onlineRules := onlineRules p0\<rparr> = p0 \<and>
           rulesOk env p' \<and>
           manifestIds doc = map (\<lambda>i. Some (JString i)) (sort (map fst (onlineRules p))) \<and>
           sorted (sort (map fst (onlineRules p))) \<and> distinct (sort (map fst (onlineRules p)))"
proof -
  let ?al = "onlineRules p"
  let ?rs = "sort_key ID (map snd ?al)"
  let ?fix = "\<lambda>r::OnlineRule. r\<lparr>localPath := filepathJoin env (dir p) (ID r @ ''.rules'')\<rparr>"
  from save obtain js where js: "marshalRules env ?rs = Some js" and doc: "doc = JArray js"
    by (auto simp: saveConfig_def Let_def split: option.splits if_splits)
  have entry: "\<And>k r. (k, r) \<in> set ?al \<Longrightarrow> ruleOk env (dir p) (k, r)"
    using ok by (rule rulesOk_entry)
  have ids: "map ID (map snd ?al) = map fst ?al"
    using entry by (auto simp: ruleOk_def)
  have sorted_ids: "map ID ?rs = sort (map fst ?al)"
    unfolding map_sort_key ids ..
  have dist: "distinct (map ID ?rs)"
    using ok by (simp add: sorted_ids rulesOk_def)
  have rng: "list_all (\<lambda>r. inInt64 (UpdateIntervalHours r) \<and> inInt64 (RuleCount r)) ?rs"
    using entry by (fastforce simp: list_all_iff ruleOk_def)
  have decoded: "unmarshalRules env doc = Some (map (\<lambda>r. Some (r\<lparr>localPath := []\<rparr>)) ?rs)"
    using unmarshal_marshalRules [OF rt rng js] doc by (simp add: unmarshalRules_def)
  from loadRules_map_of [of "\<lambda>r. r\<lparr>localPath := []\<rparr>" ?rs env "dir p" "[]", OF _ dist]
  obtain m' where m': "loadRules env (dir p) (map (\<lambda>r. Some (r\<lparr>localPath := []\<rparr>)) ?rs) [] = Inr m'"
    and mo: "map_of m' = map_of (map (\<lambda>r. (ID r, (r\<lparr>localPath := []\<rparr>)\<lparr>localPath := filepathJoin env (dir p) (ID r @ ''.rules'')\<rparr>)) ?rs)"
    and di: "distinct (map fst m')"
    and ks: "fst ` set m' = ID ` set ?rs"
    by auto
  have fixed: "\<And>r. r \<in> set ?rs \<Longrightarrow> ?fix r = r \<and> (ID r, r) \<in> set ?al"
  proof -
    fix r assume "r \<in> set ?rs"
    then obtain k where kr: "(k, r) \<in> set ?al" by auto
    from entry [OF kr] have "ID r = k" "localPath r = filepathJoin env (dir p) (ID r @ ''.rules'')"
      by (simp_all add: ruleOk_def)
    then show "?fix r = r \<and> (ID r, r) \<in> set ?al" using kr by (cases r) simp
  qed
  have same: "map (\<lambda>r. (ID r, (r\<lparr>localPath := []\<rparr>)\<lparr>localPath := filepathJoin env (dir p) (ID r @ ''.rules'')\<rparr>)) ?rs
      = map (\<lambda>r. (ID r, r)) ?rs"
    using fixed by (auto simp del: set_sort)
  have set_eq: "set (map (\<lambda>r. (ID r, r)) ?rs) = set ?al"
  proof
    show "set (map (\<lambda>r. (ID r, r)) ?rs) \<subseteq> set ?al" using fixed by (auto simp del: set_sort)
    show "set ?al \<subseteq> set (map (\<lambda>r. (ID r, r)) ?rs)"
    proof
      fix kr assume kr: "kr \<in> set ?al"
      then have "ruleOk env (dir p) kr" using entry [of "fst kr" "snd kr"] by simp
      then have "kr = (ID (snd kr), snd kr)" by (simp add: ruleOk_def prod_eq_iff)
      moreover have "snd kr \<in> set ?rs" using kr by simp
      ultimately show "kr \<in> set (map (\<lambda>r. (ID r, r)) ?rs)" by (metis (mono_tags, lifting) image_eqI list.set_map)
    qed
  qed
  have "distinct (map fst (map (\<lambda>r. (ID r, r)) ?rs))" using dist by (simp add: comp_def)
  moreover have "distinct (map fst ?al)" using ok by (simp add: rulesOk_def)
  ultimately have mo2: "map_of (map (\<lambda>r. (ID r, r)) ?rs) = map_of ?al"
    using set_eq by (simp add: map_of_inject_set)
  have mo3: "map_of m' = map_of ?al" unfolding mo same by (rule mo2)
  have set_m': "set m' = set ?al"
    using mo3 di ok by (simp add: map_of_inject_set [symmetric] rulesOk_def)
  have load: "loadConfig env (Document doc) p0 = Inr (p0\<lparr>onlineRules := m'\<rparr>)"
    using decoded m' same_dir by (simp add: loadConfig_def)
  have ok': "rulesOk env (p0\<lparr>onlineRules := m'\<rparr>)"
    using ok di set_m' same_dir by (simp add: rulesOk_def list_all_iff)
  have mids: "manifestIds doc = map (\<lambda>i. Some (JString i)) (sort (map fst ?al))"
    using marshalRules_ids [OF js] doc sorted_ids [symmetric]
    by (simp add: manifestIds_def comp_def)
  have "distinct (sort (map fst ?al))" using ok by (simp add: rulesOk_def)
  then show ?thesis using load mo3 ok' mids by simp
qed

subsection \<open>The two claims on an example\<close>

lemma demo_no_minus: "\<not> prefix ''-'' (replicate n (CHR ''I''))"
  by (cases n) simp_all

lemma demo_not_zero_text: "replicate n (CHR ''I'') \<noteq> ''0001-01-01T00:00:00Z''"
  by (cases n) simp_all

lemma demo_timeRoundTrip: "timeRoundTrip demoEnv"
  by (auto simp: timeRoundTrip_def demoEnv_def demoFormatTime_def demoParseTime_def HasPrefix_def
      demo_no_minus demo_not_zero_text)

lemma demo_save:
  "saveConfig demoEnv True True demoPlugin =
     Inr (JArray
       [JObject
         [(''id'', JString ''a1''), (''name'', JString ''ads''),
          (''url'', JString ''https://example.org/ads.txt''),
          (''enabled'', JBool True), (''auto_update'', JBool True),
          (''update_interval_hours'', JNumber 24),
          (''rule_count'', JNumber 3)],
        JObject
         [(''id'', JString ''b2''), (''name'', JString ''trackers''),
          (''url'', JString ''https://example.org/t.txt''),
          (''enabled'', JBool False), (''auto_update'', JBool False),
          (''update_interval_hours'', JNumber 0),
          (''rule_count'', JNumber 0),
          (''last_updated'', JString ''IIIII'')]])"
  by code_simp

lemma demo_rulesOk: "rulesOk demoEnv demoPlugin"
  by code_simp

theorem save_then_load_round_trip_witness:
  "timeRoundTrip demoEnv \<and> rulesOk demoEnv demoPlugin \<and>
   dir demoMatchers = dir demoPlugin \<and> onlineRules demoMatchers = [] \<and>
   (\<exists>doc. saveConfig demoEnv True True demoPlugin = Inr doc \<and>
      manifestIds doc = [Some (JString ''a1''), Some (JString ''b2'')] \<and>
      (\<exists>p'. loadConfig demoEnv (Document doc) demoMatchers = Inr p' \<and>
         map_of (onlineRules p') = map_of (onlineRules demoPlugin) \<and>
         map_of (onlineRules p') ''a1'' = Some demoRuleA \<and>
         map_of (onlineRules p') ''b2'' = Some demoRuleB))"
proof -
  obtain doc where doc: "saveConfig demoEnv True True demoPlugin = Inr doc"
    using demo_save by blast
  have srt: "sort (map fst (onlineRules demoPlugin)) = [''a1'', ''b2'']"
    by code_simp
  have same_dir: "dir demoMatchers = dir demoPlugin" "onlineRules demoMatchers = []"
    by (simp_all add: demoPlugin_def demoMatchers_def)
  have held: "map_of (onlineRules demoPlugin) ''a1'' = Some demoRuleA"
    "map_of (onlineRules demoPlugin) ''b2'' = Some demoRuleB"
    by (simp_all add: demoPlugin_def)
  from save_then_load_round_trip [OF demo_timeRoundTrip demo_rulesOk doc same_dir(1)]
  show ?thesis using demo_timeRoundTrip demo_rulesOk doc srt same_dir held by auto
qed

lemma MarshalJSON_omits_zero_time_demo:
  "IsZero (LastUpdated demoRuleA) \<and> inInt64 (UpdateIntervalHours demoRuleA) \<and>
   inInt64 (RuleCount demoRuleA) \<and>
   MarshalJSON demoEnv demoRuleA = Some (JObject
         [(''id'', JString ''a1''), (''name'', JString ''ads''),
          (''url'', JString ''https://example.org/ads.txt''),
          (''enabled'', JBool True), (''auto_update'', JBool True),
          (''update_interval_hours'', JNumber 24),
          (''rule_count'', JNumber 3)]) \<and>
   unmarshalRule demoEnv (JObject
         [(''id'', JString ''a1''), (''name'', JString ''ads''),
          (''url'', JString ''https://example.org/ads.txt''),
          (''enabled'', JBool True), (''auto_update'', JBool True),
          (''update_interval_hours'', JNumber 24),
          (''rule_count'', JNumber 3)]) zeroRule = Some (demoRuleA\<lparr>localPath := []\<rparr>)"
proof -
  have h: "IsZero (LastUpdated demoRuleA)" "inInt64 (UpdateIntervalHours demoRuleA)"
    "inInt64 (RuleCount demoRuleA)"
    by (simp_all add: demoRuleA_def IsZero_def inInt64_def)
  have m: "MarshalJSON demoEnv demoRuleA = Some (JObject
         [(''id'', JString ''a1''), (''name'', JString ''ads''),
          (''url'', JString ''https://example.org/ads.txt''),
          (''enabled'', JBool True), (''auto_update'', JBool True),
          (''update_interval_hours'', JNumber 24),
          (''rule_count'', JNumber 3)])"
    by (simp add: MarshalJSON_def demoRuleA_def IsZero_def aliasFields_def)
  from MarshalJSON_omits_zero_time [OF h, of demoEnv] m h show ?thesis by auto
qed

section \<open>The control API\<close>

text \<open>
  A handler is a function of the request, the plugin and what the environment does during
  the call (the UUID that \<^verbatim>\<open>uuid.New\<close> draws, whether the manifest can be written and
  renamed). It returns the response, the plugin afterwards, and what it has done or started
  besides, in order: the manifest it saved, the file it asked to remove, the download and the
  debounced reload it started. The body of a request is the JSON value the decoder reads from
  it, None when it cannot read one.
\<close>

record Response =
  respStatus :: nat
  respBody :: "json option"

datatype effect =
    SavedManifest json
  | RemoveFile string
  | DownloadThenReload string
  | TriggerReload
  | SaveScheduled
  | Logged error

definition jsonError :: "string \<Rightarrow> nat \<Rightarrow> Response" where
  "jsonError message code =
     \<lparr>respStatus = code, respBody = Some (JObject [(''error'', JString message)])\<rparr>"

text \<open>\<^verbatim>\<open>json.NewDecoder(r.Body).Decode(&rule)\<close> into a zero struct, followed by the two
  calls of \<^verbatim>\<open>strings.TrimSpace\<close>.\<close>

definition decodeBody :: "Env \<Rightarrow> json option \<Rightarrow> OnlineRule option" where
  "decodeBody env body =
     (case body of
        None \<Rightarrow> None
      | Some j \<Rightarrow>
          (case unmarshalRule env j zeroRule of
             None \<Rightarrow> None
           | Some r \<Rightarrow> Some (r\<lparr>Name := TrimSpace (Name r), URL := TrimSpace (URL r)\<rparr>)))"

text \<open>The response of POST encodes \<^verbatim>\<open>newRule\<close>, a struct value, so by its tags.\<close>

definition postRules ::
  "Env \<Rightarrow> string \<Rightarrow> bool \<Rightarrow> bool \<Rightarrow> json option \<Rightarrow> AdguardRule
     \<Rightarrow> Response \<times> AdguardRule \<times> effect list" where
  "postRules env uuid writeOk renameOk body p =
     (case decodeBody env body of
        None \<Rightarrow> (jsonError ''Invalid request body'' 400, p, [])
      | Some decoded \<Rightarrow>
          if Name decoded = [] \<or> URL decoded = [] then
            (jsonError ''Name and URL are required'' 400, p, [])
          else if UpdateIntervalHours decoded < 0 then
            (jsonError ''UpdateIntervalHours cannot be negative'' 400, p, [])
          else
            let newRule = decoded\<lparr>ID := uuid,
                    localPath := filepathJoin env (dir p) (uuid @ ''.rules''),
                    LastUpdated := 0\<rparr>;
                p' = p\<lparr>onlineRules := AList.update (ID newRule) newRule (onlineRules p)\<rparr>
            in case saveConfig env writeOk renameOk p' of
                 Inl e \<Rightarrow> (jsonError ''Failed to save config'' 500, p', [])
               | Inr doc \<Rightarrow>
                   (\<lparr>respStatus = 201, respBody = marshalAlias env newRule\<rparr>, p',
                    SavedManifest doc #
                      (if Enabled newRule then [DownloadThenReload (ID newRule)] else [])))"

text \<open>The response of PUT encodes \<^verbatim>\<open>rule\<close>, a pointer, so through \<open>MarshalJSON\<close>.\<close>

definition putRule ::
  "Env \<Rightarrow> bool \<Rightarrow> bool \<Rightarrow> string \<Rightarrow> json option \<Rightarrow> AdguardRule
     \<Rightarrow> Response \<times> AdguardRule \<times> effect list" where
  "putRule env writeOk renameOk ident body p =
     (case decodeBody env body of
        None \<Rightarrow> (jsonError ''Invalid request body'' 400, p, [])
      | Some updatedRuleData \<Rightarrow>
          if Name updatedRuleData = [] \<or> URL updatedRuleData = [] then
            (jsonError ''Name and URL are required'' 400, p, [])
          else if UpdateIntervalHours updatedRuleData < 0 then
            (jsonError ''UpdateIntervalHours cannot be negative'' 400, p, [])
          else
            (case map_of (onlineRules p) ident of
               None \<Rightarrow> (jsonError ''Rule not found'' 404, p, [])
             | Some found \<Rightarrow>
                 let rule = found\<lparr>Name := Name updatedRuleData,
                         URL := URL updatedRuleData,
                         Enabled := Enabled updatedRuleData,
                         AutoUpdate := AutoUpdate updatedRuleData,
                         UpdateIntervalHours := UpdateIntervalHours updatedRuleData\<rparr>;
                     p' = p\<lparr>onlineRules := AList.update ident rule (onlineRules p)\<rparr>
                 in case saveConfig env writeOk renameOk p' of
                      Inl e \<Rightarrow> (jsonError ''Failed to save config'' 500, p', [])
                    | Inr doc \<Rightarrow>
                        (\<lparr>respStatus = 200, respBody = MarshalJSON env rule\<rparr>, p',
                         [SavedManifest doc, TriggerReload])))"

definition deleteRule ::
  "Env \<Rightarrow> bool \<Rightarrow> bool \<Rightarrow> string \<Rightarrow> AdguardRule \<Rightarrow> Response \<times> AdguardRule \<times> effect list" where
  "deleteRule env writeOk renameOk ident p =
     (case map_of (onlineRules p) ident of
        None \<Rightarrow> (jsonError ''Rule not found'' 404, p, [])
      | Some rule \<Rightarrow>
          let p' = p\<lparr>onlineRules := AList.delete ident (onlineRules p)\<rparr>
          in case saveConfig env writeOk renameOk p' of
               Inl e \<Rightarrow> (jsonError ''Failed to save config'' 500, p', [RemoveFile (localPath rule)])
             | Inr doc \<Rightarrow>
                 (\<lparr>respStatus = 204, respBody = None\<rparr>, p',
                  [RemoveFile (localPath rule), SavedManifest doc, TriggerReload]))"

text \<open>A body fails validation when it cannot be decoded, when the name or the URL is empty
  once trimmed, or when the interval is negative.\<close>

definition failsValidation :: "Env \<Rightarrow> json option \<Rightarrow> bool" where
  "failsValidation env body =
     (case decodeBody env body of
        None \<Rightarrow> True
      | Some d \<Rightarrow> Name d = [] \<or> URL d = [] \<or> UpdateIntervalHours d < 0)"

section \<open>The refresh of the rule counts\<close>

text \<open>
  The files of the working directory, as \<^verbatim>\<open>os.Open\<close> and the scanner see them: None for
  a path that cannot be opened.
\<close>

type_synonym files = "string \<Rightarrow> Reader option"

text \<open>The count \<open>parseRules\<close> returns on two new builders; the error is dropped.\<close>

definition countRules :: "Env \<Rightarrow> Reader \<Rightarrow> int" where
  "countRules env reader =
     snd (snd (fst (parseRules env reader NewDomainMixMatcher NewDomainMixMatcher)))"

text \<open>The loop of \<open>updateAllRuleCounts\<close>, with its variable \<open>changed\<close>.\<close>

fun updateCounts ::
  "Env \<Rightarrow> files \<Rightarrow> (string \<times> OnlineRule) list \<Rightarrow> bool \<Rightarrow> (string \<times> OnlineRule) list \<times> bool" where
  "updateCounts env fs [] changed = ([], changed)"
| "updateCounts env fs ((k, rule) # rest) changed =
     (case fs (localPath rule) of
        None \<Rightarrow>
          if RuleCount rule \<noteq> 0 then
            (case updateCounts env fs rest True of
               (rest', c) \<Rightarrow> ((k, rule\<lparr>RuleCount := 0\<rparr>) # rest', c))
          else
            (case updateCounts env fs rest changed of (rest', c) \<Rightarrow> ((k, rule) # rest', c))
      | Some file \<Rightarrow>
          let count = countRules env file in
          if RuleCount rule \<noteq> count then
            (case updateCounts env fs rest True of
               (rest', c) \<Rightarrow> ((k, rule\<lparr>RuleCount := count\<rparr>) # rest', c))
          else
            (case updateCounts env fs rest changed of (rest', c) \<Rightarrow> ((k, rule) # rest', c)))"

definition updateAllRuleCounts :: "Env \<Rightarrow> files \<Rightarrow> AdguardRule \<Rightarrow> AdguardRule \<times> effect list" where
  "updateAllRuleCounts env fs p =
     (case updateCounts env fs (onlineRules p) False of
        (m, changed) \<Rightarrow> (p\<lparr>onlineRules := m\<rparr>, if changed then [SaveScheduled] else []))"

text \<open>The goroutine that \<open>updateAllRuleCounts\<close> starts when a count has changed, run on
  the plugin as it is when the goroutine gets the lock.\<close>

definition saveCounts :: "Env \<Rightarrow> bool \<Rightarrow> bool \<Rightarrow> AdguardRule \<Rightarrow> AdguardRule \<times> effect list" where
  "saveCounts env writeOk renameOk p =
     (case saveConfig env writeOk renameOk p of
        Inl e \<Rightarrow> (p, [Logged e])
      | Inr doc \<Rightarrow> (p, [SavedManifest doc]))"

text \<open>
  \<open>reloadAllRules\<close>, from the point where the downloads of an initial load, if any, have
  come back: \<open>fs\<close> and \<open>p\<close> are the files and the plugin at that point. The rule lists
  that are enabled are parsed into two new builders, a list whose file cannot be opened being
  skipped, and the two builders are published together. The total is only logged.
\<close>

fun loadEnabled :: "Env \<Rightarrow> files \<Rightarrow> OnlineRule list \<Rightarrow> parseState \<Rightarrow> parseState" where
  "loadEnabled env fs [] st = st"
| "loadEnabled env fs (rule # rules) (newAllowMatcher, newDenyMatcher, totalRuleCount) =
     (case fs (localPath rule) of
        None \<Rightarrow> loadEnabled env fs rules (newAllowMatcher, newDenyMatcher, totalRuleCount)
      | Some file \<Rightarrow>
          (case parseRules env file newAllowMatcher newDenyMatcher of
             ((allowM, denyM, count), err) \<Rightarrow>
               loadEnabled env fs rules (allowM, denyM, totalRuleCount + count)))"

definition reloadAllRules :: "Env \<Rightarrow> files \<Rightarrow> AdguardRule \<Rightarrow> AdguardRule \<times> effect list" where
  "reloadAllRules env fs p =
     (let enabledRules = filter Enabled (map snd (onlineRules p)) in
      case updateAllRuleCounts env fs p of
        (p1, effs) \<Rightarrow>
          (case loadEnabled env fs enabledRules (NewDomainMixMatcher, NewDomainMixMatcher, 0) of
             (newAllowMatcher, newDenyMatcher, totalRuleCount) \<Rightarrow>
               (p1\<lparr>allowMatcher := newAllowMatcher, denyMatcher := newDenyMatcher\<rparr>, effs)))"

text \<open>The count the refresh gives a rule list.\<close>

definition freshCount :: "Env \<Rightarrow> files \<Rightarrow> OnlineRule \<Rightarrow> int" where
  "freshCount env fs rule =
     (case fs (localPath rule) of None \<Rightarrow> 0 | Some file \<Rightarrow> countRules env file)"

text \<open>The files of the examples: the list of the disabled rule \<open>demoRuleB\<close> is on disk with
  two rules and a comment, the list of \<open>demoRuleA\<close> is not.\<close>

definition demoFiles :: files where
  "demoFiles path =
     (if path = ''/etc/mosdns/adguard/b2.rules''
      then Some ([''! trackers'', ''||tracker.net^'', ''metrics.example.com''], None)
      else None)"

text \<open>Three request bodies for the examples: one that passes validation and brings an id
  and a time of its own, one that passes validation with a name, a URL and a flag only, and
  one whose name is blank.\<close>

definition demoBody :: json where
  "demoBody = JObject
     [(''id'', JString ''client-id''), (''name'', JString ''  new list ''),
      (''url'', JString ''https://example.org/new.txt''), (''enabled'', JBool True),
      (''update_interval_hours'', JNumber 12), (''last_updated'', JString ''III'')]"

definition demoPostBody :: json where
  "demoPostBody = JObject
     [(''name'', JString ''ads''), (''url'', JString ''https://example.org/ads.txt''),
      (''enabled'', JBool True)]"

definition demoBlankBody :: json where
  "demoBlankBody = JObject
     [(''name'', JString ''   ''), (''url'', JString ''https://example.org/new.txt'')]"

section \<open>Properties of the control API\<close>

lemma decodeBody_Some:
  "decodeBody env body = Some d \<Longrightarrow>
     \<exists>j raw. body = Some j \<and> unmarshalRule env j zeroRule = Some raw \<and>
       d = raw\<lparr>Name := TrimSpace (Name raw), URL := TrimSpace (URL raw)\<rparr>"
  by (auto simp: decodeBody_def split: option.splits)

text \<open>
  Claim C5. For a POST whose body passes validation, the rule list the handler stores is the
  decoded one (name and URL trimmed) with the id replaced by the UUID just drawn, whatever id
  the client sent, the local path derived from the directory and that new id, and
  \<^verbatim>\<open>last_updated\<close> set to the zero time, whatever time the client sent; it is stored under
  the new id. When the manifest is saved the response is 201 and carries the stored rule
  list, whose member \<^verbatim>\<open>id\<close> is the new id and whose member \<^verbatim>\<open>last_updated\<close> is the
  zero time; otherwise the response is 500.
\<close>

theorem post_assigns_id_path_and_zero_time:
  assumes valid: "\<not> failsValidation env body"
    and post: "postRules env uuid writeOk renameOk body p = (resp, p', effs)"
  shows "\<exists>j raw stored. body = Some j \<and> unmarshalRule env j zeroRule = Some raw \<and>
           stored = raw\<lparr>Name := TrimSpace (Name raw), URL := TrimSpace (URL raw), ID := uuid,
                      localPath := filepathJoin env (dir p) (uuid @ ''.rules''),
                      LastUpdated := 0\<rparr> \<and>
           map_of (onlineRules p') = (map_of (onlineRules p))(uuid \<mapsto> stored) \<and>
           ID stored = uuid \<and>
           localPath stored = filepathJoin env (dir p) (uuid @ ''.rules'') \<and>
           IsZero (LastUpdated stored) \<and>
           (respStatus resp = 201 \<or> respStatus resp = 500) \<and>
           (respStatus resp = 201 \<longrightarrow>
              respBody resp = marshalAlias env stored \<and>
              (\<forall>doc. respBody resp = Some doc \<longrightarrow>
                 memberOf ''id'' doc = Some (JString uuid) \<and>
                 memberOf ''last_updated'' doc = map_option JString (formatTime env 0)))"
proof -
  from valid obtain d where d: "decodeBody env body = Some d"
    and ok: "Name d \<noteq> []" "URL d \<noteq> []" "\<not> UpdateIntervalHours d < 0"
    by (auto simp: failsValidation_def split: option.splits)
  from decodeBody_Some [OF d] obtain j raw where j: "body = Some j"
    and raw: "unmarshalRule env j zeroRule = Some raw"
    and draw: "d = raw\<lparr>Name := TrimSpace (Name raw), URL := TrimSpace (URL raw)\<rparr>"
    by blast
  let ?stored = "d\<lparr>ID := uuid, localPath := filepathJoin env (dir p) (uuid @ ''.rules''),
                      LastUpdated := 0\<rparr>"
  let ?p' = "p\<lparr>onlineRules := AList.update uuid ?stored (onlineRules p)\<rparr>"
  have members: "marshalAlias env ?stored = Some doc \<Longrightarrow>
      memberOf ''id'' doc = Some (JString uuid) \<and>
      memberOf ''last_updated'' doc = map_option JString (formatTime env 0)" for doc
    by (auto simp: marshalAlias_def memberOf_def aliasFields_def split: option.splits)
  have "p' = ?p' \<and> (resp = jsonError ''Failed to save config'' 500 \<or>
      resp = \<lparr>respStatus = 201, respBody = marshalAlias env ?stored\<rparr>)"
    using post d ok
    by (cases "saveConfig env writeOk renameOk ?p'") (simp_all add: postRules_def Let_def)
  then show ?thesis using j raw draw members
    by (auto simp: update_conv' IsZero_def jsonError_def)
qed

text \<open>
  Claim C8, as amended. A POST or a PUT whose body fails validation (it does not decode, or
  the name or the URL is empty once trimmed, or the interval is negative) is answered 400
  with a JSON object of one member \<^verbatim>\<open>error\<close>, and the rule set is unchanged. A PUT whose
  body passes validation and whose id is not in the rule set, and a DELETE whose id is not in
  the rule set, are answered 404, and the rule set is unchanged.
\<close>

theorem invalid_or_unknown_changes_nothing:
  "(failsValidation env body \<longrightarrow>
      (\<exists>msg. postRules env uuid writeOk renameOk body p = (jsonError msg 400, p, [])) \<and>
      (\<exists>msg. putRule env writeOk renameOk ident body p = (jsonError msg 400, p, []))) \<and>
   (\<not> failsValidation env body \<and> map_of (onlineRules p) ident = None \<longrightarrow>
      putRule env writeOk renameOk ident body p = (jsonError ''Rule not found'' 404, p, [])) \<and>
   (map_of (onlineRules p) ident = None \<longrightarrow>
      deleteRule env writeOk renameOk ident p = (jsonError ''Rule not found'' 404, p, []))"
  by (auto simp: failsValidation_def postRules_def putRule_def deleteRule_def
      split: option.splits)

text \<open>
  Claim C8 as it is stated fails for PUT: the handler validates the body before it looks the
  id up, so a PUT whose id is not in the rule set and whose body does not decode is answered
  400, not 404.
\<close>

theorem put_unknown_id_counterexample:
  "map_of (onlineRules demoPlugin) ''zz'' = None \<and>
   putRule demoEnv True True ''zz'' None demoPlugin =
     (jsonError ''Invalid request body'' 400, demoPlugin, []) \<and>
   respStatus (fst (putRule demoEnv True True ''zz'' None demoPlugin)) \<noteq> 404"
  by (simp add: putRule_def decodeBody_def demoPlugin_def jsonError_def)

text \<open>
  Claim C9. For a PUT whose body passes validation and whose id is in the rule set, the rule
  list stored under that id gets the name and the URL of the request, trimmed, and its
  \<^verbatim>\<open>enabled\<close>, \<^verbatim>\<open>auto_update\<close> and \<^verbatim>\<open>update_interval_hours\<close>; its id, rule count,
  time of last update and local path stay as they were, every other rule list is as before,
  the keys of the map are the same, and nothing else of the plugin changes. The response is
  200 with the stored rule list when the manifest is saved, and 500 otherwise.
\<close>

theorem put_replaces_five_fields:
  assumes valid: "\<not> failsValidation env body"
    and found: "map_of (onlineRules p) ident = Some old"
    and put: "putRule env writeOk renameOk ident body p = (resp, p', effs)"
  shows "\<exists>j raw new. body = Some j \<and> unmarshalRule env j zeroRule = Some raw \<and>
           map_of (onlineRules p') = (map_of (onlineRules p))(ident \<mapsto> new) \<and>
           map fst (onlineRules p') = map fst (onlineRules p) \<and>
           Name new = TrimSpace (Name raw) \<and> URL new = TrimSpace (URL raw) \<and>
           Enabled new = Enabled raw \<and> AutoUpdate new = AutoUpdate raw \<and>
           UpdateIntervalHours new = UpdateIntervalHours raw \<and>
           ID new = ID old \<and> RuleCount new = RuleCount old \<and>
           LastUpdated new = LastUpdated old \<and> localPath new = localPath old \<and>
           (\<forall>k. k \<noteq> ident \<longrightarrow> map_of (onlineRules p') k = map_of (onlineRules p) k) \<and>
           p'\<lparr>onlineRules := onlineRules p\<rparr> = p \<and>
           (respStatus resp = 200 \<or> respStatus resp = 500) \<and>
           (respStatus resp = 200 \<longrightarrow> respBody resp = MarshalJSON env new)"
proof -
  from valid obtain d where d: "decodeBody env body = Some d"
    and ok: "Name d \<noteq> []" "URL d \<noteq> []" "\<not> UpdateIntervalHours d < 0"
    by (auto simp: failsValidation_def split: option.splits)
  from decodeBody_Some [OF d] obtain j raw where j: "body = Some j"
    and raw: "unmarshalRule env j zeroRule = Some raw"
    and draw: "d = raw\<lparr>Name := TrimSpace (Name raw), URL := TrimSpace (URL raw)\<rparr>"
    by blast
  let ?new = "old\<lparr>Name := Name d, URL := URL d, Enabled := Enabled d,
      AutoUpdate := AutoUpdate d, UpdateIntervalHours := UpdateIntervalHours d\<rparr>"
  let ?p' = "p\<lparr>onlineRules := AList.update ident ?new (onlineRules p)\<rparr>"
  have keys: "map fst (AList.update ident ?new (onlineRules p)) = map fst (onlineRules p)"
    using found by (simp add: update_keys map_of_eq_None_iff [symmetric])
  have "p' = ?p' \<and> (resp = jsonError ''Failed to save config'' 500 \<or>
      resp = \<lparr>respStatus = 200, respBody = MarshalJSON env ?new\<rparr>)"
    using put d ok found
    by (cases "saveConfig env writeOk renameOk ?p'") (simp_all add: putRule_def Let_def)
  then show ?thesis using j raw draw keys
    by (auto simp: update_conv' jsonError_def)
qed

subsection \<open>The handlers on the example requests\<close>

lemma demo_body:
  "decodeBody demoEnv (Some demoBody) =
     Some \<lparr>ID = ''client-id'', Name = ''new list'', URL = ''https://example.org/new.txt'',
            Enabled = True, AutoUpdate = False, UpdateIntervalHours = 12, RuleCount = 0,
            LastUpdated = 3, localPath = []\<rparr>"
  "unmarshalRule demoEnv demoBody zeroRule =
     Some \<lparr>ID = ''client-id'', Name = ''  new list '', URL = ''https://example.org/new.txt'',
            Enabled = True, AutoUpdate = False, UpdateIntervalHours = 12, RuleCount = 0,
            LastUpdated = 3, localPath = []\<rparr>"
  "TrimSpace ''  new list '' = ''new list''"
  "TrimSpace ''https://example.org/new.txt'' = ''https://example.org/new.txt''"
  "failsValidation demoEnv (Some demoBody) = False"
  "failsValidation demoEnv (Some demoBlankBody) = True"
  by code_simp+

theorem post_assigns_id_path_and_zero_time_witness:
  "\<not> failsValidation demoEnv (Some demoBody) \<and>
   memberOf ''id'' demoBody = Some (JString ''client-id'') \<and>
   memberOf ''last_updated'' demoBody = Some (JString ''III'') \<and>
   map_of (onlineRules (fst (snd (postRules demoEnv ''u-1'' True True (Some demoBody) demoPlugin))))
     ''u-1'' =
     Some \<lparr>ID = ''u-1'', Name = ''new list'', URL = ''https://example.org/new.txt'',
            Enabled = True, AutoUpdate = False, UpdateIntervalHours = 12, RuleCount = 0,
            LastUpdated = 0, localPath = ''/etc/mosdns/adguard/u-1.rules''\<rparr> \<and>
   respStatus (fst (postRules demoEnv ''u-1'' True True (Some demoBody) demoPlugin)) = 201"
proof -
  have valid: "\<not> failsValidation demoEnv (Some demoBody)" by (simp add: demo_body)
  obtain resp p' effs
    where post: "postRules demoEnv ''u-1'' True True (Some demoBody) demoPlugin = (resp, p', effs)"
    by (rule prod_cases3)
  have st: "respStatus (fst (postRules demoEnv ''u-1'' True True (Some demoBody) demoPlugin)) = 201"
    by code_simp
  have mem: "memberOf ''id'' demoBody = Some (JString ''client-id'')"
    "memberOf ''last_updated'' demoBody = Some (JString ''III'')"
    by (simp_all add: memberOf_def demoBody_def)
  have path: "filepathJoin demoEnv (dir demoPlugin) (''u-1'' @ ''.rules'') =
      ''/etc/mosdns/adguard/u-1.rules''"
    by (simp add: demoEnv_def demoPlugin_def demoMatchers_def)
  from post_assigns_id_path_and_zero_time [OF valid post]
  obtain raw stored where raw: "unmarshalRule demoEnv demoBody zeroRule = Some raw"
    and stored: "stored = raw\<lparr>Name := TrimSpace (Name raw), URL := TrimSpace (URL raw),
        ID := ''u-1'', localPath := filepathJoin demoEnv (dir demoPlugin) (''u-1'' @ ''.rules''),
        LastUpdated := 0\<rparr>"
    and m: "map_of (onlineRules p') = (map_of (onlineRules demoPlugin))(''u-1'' \<mapsto> stored)"
    by auto
  from raw have rawv: "raw = \<lparr>ID = ''client-id'', Name = ''  new list '',
      URL = ''https://example.org/new.txt'', Enabled = True, AutoUpdate = False,
      UpdateIntervalHours = 12, RuleCount = 0, LastUpdated = 3, localPath = []\<rparr>"
    by (simp add: demo_body)
  have "stored = \<lparr>ID = ''u-1'', Name = ''new list'',
      URL = ''https://example.org/new.txt'', Enabled = True, AutoUpdate = False,
      UpdateIntervalHours = 12, RuleCount = 0, LastUpdated = 0,
      localPath = ''/etc/mosdns/adguard/u-1.rules''\<rparr>"
    unfolding stored path rawv by (simp add: demo_body)
  then show ?thesis using valid post st mem m by simp
qed

theorem invalid_or_unknown_changes_nothing_witness:
  "failsValidation demoEnv (Some demoBlankBody) \<and>
   postRules demoEnv ''u-1'' True True (Some demoBlankBody) demoPlugin =
     (jsonError ''Name and URL are required'' 400, demoPlugin, []) \<and>
   putRule demoEnv True True ''a1'' (Some demoBlankBody) demoPlugin =
     (jsonError ''Name and URL are required'' 400, demoPlugin, []) \<and>
   \<not> failsValidation demoEnv (Some demoBody) \<and>
   map_of (onlineRules demoPlugin) ''zz'' = None \<and>
   putRule demoEnv True True ''zz'' (Some demoBody) demoPlugin =
     (jsonError ''Rule not found'' 404, demoPlugin, []) \<and>
   deleteRule demoEnv True True ''zz'' demoPlugin =
     (jsonError ''Rule not found'' 404, demoPlugin, [])"
proof -
  have h: "failsValidation demoEnv (Some demoBlankBody)"
    "\<not> failsValidation demoEnv (Some demoBody)"
    "map_of (onlineRules demoPlugin) ''zz'' = None"
    by (simp_all add: demo_body demoPlugin_def)
  have msg: "postRules demoEnv ''u-1'' True True (Some demoBlankBody) demoPlugin =
       (jsonError ''Name and URL are required'' 400, demoPlugin, [])"
    "putRule demoEnv True True ''a1'' (Some demoBlankBody) demoPlugin =
       (jsonError ''Name and URL are required'' 400, demoPlugin, [])"
    by code_simp+
  from invalid_or_unknown_changes_nothing
    [of demoEnv "Some demoBody" "''u-1''" True True demoPlugin "''zz''"]
  show ?thesis using h msg by simp
qed

theorem put_replaces_five_fields_witness:
  "\<not> failsValidation demoEnv (Some demoBody) \<and>
   map_of (onlineRules demoPlugin) ''a1'' = Some demoRuleA \<and>
   map_of (onlineRules (fst (snd (putRule demoEnv True True ''a1'' (Some demoBody) demoPlugin)))) =
     (map_of (onlineRules demoPlugin))(''a1'' \<mapsto>
        demoRuleA\<lparr>Name := ''new list'', URL := ''https://example.org/new.txt'',
          Enabled := True, AutoUpdate := False, UpdateIntervalHours := 12\<rparr>) \<and>
   respStatus (fst (putRule demoEnv True True ''a1'' (Some demoBody) demoPlugin)) = 200"
proof -
  have valid: "\<not> failsValidation demoEnv (Some demoBody)" by (simp add: demo_body)
  have found: "map_of (onlineRules demoPlugin) ''a1'' = Some demoRuleA"
    by (simp add: demoPlugin_def)
  obtain resp p' effs
    where put: "putRule demoEnv True True ''a1'' (Some demoBody) demoPlugin = (resp, p', effs)"
    by (rule prod_cases3)
  have st: "respStatus (fst (putRule demoEnv True True ''a1'' (Some demoBody) demoPlugin)) = 200"
    by code_simp
  from put_replaces_five_fields [OF valid found put]
  obtain new where new: "map_of (onlineRules p') = (map_of (onlineRules demoPlugin))(''a1'' \<mapsto> new)"
    and fields: "Name new = ''new list''" "URL new = ''https://example.org/new.txt''"
      "Enabled new = True" "AutoUpdate new = False" "UpdateIntervalHours new = 12"
      "ID new = ID demoRuleA" "RuleCount new = RuleCount demoRuleA"
      "LastUpdated new = LastUpdated demoRuleA" "localPath new = localPath demoRuleA"
    by (auto simp: demo_body)
  have "new = demoRuleA\<lparr>Name := ''new list'', URL := ''https://example.org/new.txt'',
          Enabled := True, AutoUpdate := False, UpdateIntervalHours := 12\<rparr>"
    using fields by (cases new) (simp add: demoRuleA_def)
  then show ?thesis using valid found put st new by simp
qed

subsection \<open>The zero time in the response of POST\<close>

text \<open>
  Claim C7 says that serializing a rule list whose \<^verbatim>\<open>last_updated\<close> is the zero time
  gives JSON with no member \<^verbatim>\<open>last_updated\<close>. The response of POST breaks it: the
  handler sets \<^verbatim>\<open>last_updated\<close> of the new rule list to the zero time and encodes the
  struct by value, which does not reach \<open>MarshalJSON\<close>. For the body with a name, a URL
  and a flag, the rule list stored under the new id has the zero time, the 201 response
  carries the member \<^verbatim>\<open>last_updated\<close> with the text of the zero time, and
  \<open>MarshalJSON\<close> of the same rule list, which is what the manifest and the response of
  PUT would write, has no such member.
\<close>

theorem post_response_writes_zero_last_updated:
  "map_of (onlineRules (fst (snd (postRules demoEnv ''u-1'' True True (Some demoPostBody)
      demoPlugin)))) ''u-1'' =
     Some \<lparr>ID = ''u-1'', Name = ''ads'', URL = ''https://example.org/ads.txt'',
            Enabled = True, AutoUpdate = False, UpdateIntervalHours = 0, RuleCount = 0,
            LastUpdated = 0, localPath = ''/etc/mosdns/adguard/u-1.rules''\<rparr> \<and>
   fst (postRules demoEnv ''u-1'' True True (Some demoPostBody) demoPlugin) =
     \<lparr>respStatus = 201,
      respBody = Some (JObject
        [(''id'', JString ''u-1''), (''name'', JString ''ads''),
         (''url'', JString ''https://example.org/ads.txt''),
         (''enabled'', JBool True), (''auto_update'', JBool False),
         (''update_interval_hours'', JNumber 0), (''rule_count'', JNumber 0),
         (''last_updated'', JString ''0001-01-01T00:00:00Z'')])\<rparr> \<and>
   MarshalJSON demoEnv
     \<lparr>ID = ''u-1'', Name = ''ads'', URL = ''https://example.org/ads.txt'',
      Enabled = True, AutoUpdate = False, UpdateIntervalHours = 0, RuleCount = 0,
      LastUpdated = 0, localPath = ''/etc/mosdns/adguard/u-1.rules''\<rparr> =
     Some (JObject
        [(''id'', JString ''u-1''), (''name'', JString ''ads''),
         (''url'', JString ''https://example.org/ads.txt''),
         (''enabled'', JBool True), (''auto_update'', JBool False),
         (''update_interval_hours'', JNumber 0), (''rule_count'', JNumber 0)])"
  by code_simp

section \<open>Properties of the refresh of the rule counts\<close>

lemma updateCounts_map:
  "updateCounts env fs al changed =
     (map (\<lambda>(k, r). (k, r\<lparr>RuleCount := freshCount env fs r\<rparr>)) al,
      changed \<or> list_ex (\<lambda>(k, r). RuleCount r \<noteq> freshCount env fs r) al)"
proof (induction al arbitrary: changed)
  case Nil
  then show ?case by simp
next
  case (Cons kr al)
  obtain k r where kr: "kr = (k, r)" by (cases kr)
  show ?case
  proof (cases "fs (localPath r)")
    case None
    then show ?thesis using Cons.IH kr by (simp add: freshCount_def)
  next
    case (Some rd)
    then show ?thesis using Cons.IH kr by (simp add: freshCount_def Let_def)
  qed
qed

text \<open>
  Claim C10. Every reload runs the refresh, and it is the refresh that decides the rule lists
  and the scheduled save the reload ends with. The refresh goes through every rule list of
  the map, enabled or not: each gets the count 0 when its local file cannot be opened and the
  count of a parse of the file into two new builders when it can, and no other field
  changes. A save of the manifest is scheduled exactly when some count has changed; the
  scheduled save leaves the plugin as it is, and a failure of it is logged and nothing more.
\<close>

theorem refresh_counts_every_rule:
  "updateAllRuleCounts env fs p =
     (p\<lparr>onlineRules := map (\<lambda>(k, r). (k, r\<lparr>RuleCount := freshCount env fs r\<rparr>)) (onlineRules p)\<rparr>,
      if list_ex (\<lambda>(k, r). RuleCount r \<noteq> freshCount env fs r) (onlineRules p)
      then [SaveScheduled] else []) \<and>
   onlineRules (fst (reloadAllRules env fs p)) = onlineRules (fst (updateAllRuleCounts env fs p)) \<and>
   snd (reloadAllRules env fs p) = snd (updateAllRuleCounts env fs p) \<and>
   (fs (localPath rule) = None \<longrightarrow> freshCount env fs rule = 0) \<and>
   (fs (localPath rule) = Some file \<longrightarrow> freshCount env fs rule = countRules env file) \<and>
   saveCounts env writeOk renameOk q =
     (q, case saveConfig env writeOk renameOk q of
           Inl e \<Rightarrow> [Logged e] | Inr doc \<Rightarrow> [SavedManifest doc])"
  by (simp add: updateAllRuleCounts_def updateCounts_map freshCount_def saveCounts_def
      reloadAllRules_def split: sum.splits prod.splits)

lemma demo_counts:
  "demoFiles (localPath demoRuleA) = None"
  "demoFiles (localPath demoRuleB) = Some ([''! trackers'', ''||tracker.net^'', ''metrics.example.com''], None)"
  "countRules demoEnv ([''! trackers'', ''||tracker.net^'', ''metrics.example.com''], None) = 2"
  by code_simp+

theorem refresh_counts_every_rule_witness:
  "demoFiles (localPath demoRuleA) = None \<and> RuleCount demoRuleA = 3 \<and>
   demoFiles (localPath demoRuleB) =
     Some ([''! trackers'', ''||tracker.net^'', ''metrics.example.com''], None) \<and>
   Enabled demoRuleB = False \<and> RuleCount demoRuleB = 0 \<and>
   updateAllRuleCounts demoEnv demoFiles demoPlugin =
     (demoPlugin\<lparr>onlineRules := [(''b2'', demoRuleB\<lparr>RuleCount := 2\<rparr>),
                                  (''a1'', demoRuleA\<lparr>RuleCount := 0\<rparr>)]\<rparr>, [SaveScheduled])"
proof -
  have a: "freshCount demoEnv demoFiles demoRuleA = 0"
    using refresh_counts_every_rule [of demoEnv demoFiles demoPlugin demoRuleA] demo_counts(1)
    by simp
  have b: "freshCount demoEnv demoFiles demoRuleB = 2"
    using refresh_counts_every_rule [of demoEnv demoFiles demoPlugin demoRuleB
        "([''! trackers'', ''||tracker.net^'', ''metrics.example.com''], None)"] demo_counts(2,3)
    by simp
  have c: "RuleCount demoRuleA = 3" "RuleCount demoRuleB = 0" "Enabled demoRuleB = False"
    by (simp_all add: demoRuleA_def demoRuleB_def)
  have "updateAllRuleCounts demoEnv demoFiles demoPlugin =
     (demoPlugin\<lparr>onlineRules := [(''b2'', demoRuleB\<lparr>RuleCount := 2\<rparr>),
                                  (''a1'', demoRuleA\<lparr>RuleCount := 0\<rparr>)]\<rparr>, [SaveScheduled])"
    using refresh_counts_every_rule [of demoEnv demoFiles demoPlugin] a b c
    by (simp add: demoPlugin_def)
  then show ?thesis using demo_counts(1,2) c by simp
qed

section \<open>The rule set stays well formed\<close>

text \<open>
  \<open>rulesOk\<close>, under which saving and loading is a round trip, holds of what
  \<open>loadConfig\<close> builds from a manifest, and the three handlers and the refresh of the
  counts keep it (the refresh as long as no rule file has \<open>2 ^ 63\<close> lines or more, which
  is when the count stays a value of Go's \<^verbatim>\<open>int\<close>).
\<close>

lemma setField_range:
  "setField env key v r = Some r' \<Longrightarrow>
     inInt64 (UpdateIntervalHours r) \<and> inInt64 (RuleCount r) \<Longrightarrow>
     inInt64 (UpdateIntervalHours r') \<and> inInt64 (RuleCount r')"
  by (auto simp: setField_def Let_def split: json.splits if_splits option.splits)

lemma setFields_range:
  "setFields env ms r = Some r' \<Longrightarrow>
     inInt64 (UpdateIntervalHours r) \<and> inInt64 (RuleCount r) \<Longrightarrow>
     inInt64 (UpdateIntervalHours r') \<and> inInt64 (RuleCount r')"
proof (induction ms arbitrary: r)
  case Nil
  then show ?case by simp
next
  case (Cons kv ms)
  obtain k v where kv: "kv = (k, v)" by (cases kv)
  from Cons.prems(1) kv obtain r1 where r1: "setField env k v r = Some r1"
    and rest: "setFields env ms r1 = Some r'"
    by (auto split: option.splits)
  from setField_range [OF r1 Cons.prems(2)] Cons.IH [OF rest] show ?case by simp
qed

lemma unmarshalRule_range:
  "unmarshalRule env j zeroRule = Some r \<Longrightarrow>
     inInt64 (UpdateIntervalHours r) \<and> inInt64 (RuleCount r)"
proof -
  have z: "inInt64 (UpdateIntervalHours zeroRule) \<and> inInt64 (RuleCount zeroRule)"
    by (simp add: zeroRule_def inInt64_def)
  assume "unmarshalRule env j zeroRule = Some r"
  then show ?thesis using z setFields_range [of env _ zeroRule r]
    by (auto simp: unmarshalRule_def split: json.splits)
qed

lemma unmarshalElems_range:
  "unmarshalElems env js = Some rs \<Longrightarrow> Some r \<in> set rs \<Longrightarrow>
     inInt64 (UpdateIntervalHours r) \<and> inInt64 (RuleCount r)"
proof (induction js arbitrary: rs)
  case Nil
  then show ?case by simp
next
  case (Cons j js)
  then show ?case
    by (auto split: if_splits option.splits dest: unmarshalRule_range)
qed

lemma set_update_subset: "set (AList.update k v al) \<subseteq> insert (k, v) (set al)"
  by (induction al) auto

lemma set_delete_subset: "set (AList.delete k al) \<subseteq> set al"
  by (auto simp: AList.delete_eq)

lemma list_all_update:
  "list_all P al \<Longrightarrow> P (k, v) \<Longrightarrow> list_all P (AList.update k v al)"
  using set_update_subset [of k v al] by (auto simp: list_all_iff)

lemma list_all_delete: "list_all P al \<Longrightarrow> list_all P (AList.delete k al)"
  using set_delete_subset [of k al] by (auto simp: list_all_iff)

lemma loadRules_rulesOk:
  "loadRules env d rules m = Inr m' \<Longrightarrow>
     distinct (map fst m) \<Longrightarrow> list_all (ruleOk env d) m \<Longrightarrow>
     (\<And>r. Some r \<in> set rules \<Longrightarrow> inInt64 (UpdateIntervalHours r) \<and> inInt64 (RuleCount r)) \<Longrightarrow>
     distinct (map fst m') \<and> list_all (ruleOk env d) m'"
proof (induction env d rules m rule: loadRules.induct)
  case (1 env d m)
  then show ?case by simp
next
  case (2 env d rules m)
  then show ?case by simp
next
  case (3 env d rule rules m)
  let ?v = "rule\<lparr>localPath := filepathJoin env d (ID rule @ ''.rules'')\<rparr>"
  have v: "ruleOk env d (ID rule, ?v)" using "3.prems"(4) [of rule] by (simp add: ruleOk_def)
  have "distinct (map fst (AList.update (ID rule) ?v m))"
    using "3.prems"(2) by (simp add: distinct_update)
  moreover have "list_all (ruleOk env d) (AList.update (ID rule) ?v m)"
    using "3.prems"(3) v by (rule list_all_update)
  ultimately show ?case using "3.IH" "3.prems"(1,4) by simp
qed

lemma loadConfig_rulesOk:
  assumes "loadConfig env (Document doc) p = Inr p'"
  shows "rulesOk env p'"
proof -
  from assms obtain rules m where u: "unmarshalRules env doc = Some rules"
    and l: "loadRules env (dir p) rules [] = Inr m" and p': "p' = p\<lparr>onlineRules := m\<rparr>"
    by (auto simp: loadConfig_def split: option.splits sum.splits)
  have rng: "\<And>r. Some r \<in> set rules \<Longrightarrow> inInt64 (UpdateIntervalHours r) \<and> inInt64 (RuleCount r)"
    using u by (auto simp: unmarshalRules_def split: json.splits dest: unmarshalElems_range)
  from loadRules_rulesOk [OF l _ _ rng] show ?thesis using p' by (simp add: rulesOk_def)
qed

lemma update_rulesOk:
  assumes "rulesOk env p" "ruleOk env (dir p) (k, v)"
  shows "rulesOk env (p\<lparr>onlineRules := AList.update k v (onlineRules p)\<rparr>)"
  using assms by (simp add: rulesOk_def distinct_update list_all_update)

lemma delete_rulesOk:
  assumes "rulesOk env p"
  shows "rulesOk env (p\<lparr>onlineRules := AList.delete k (onlineRules p)\<rparr>)"
  using assms by (simp add: rulesOk_def distinct_delete list_all_delete)

lemma decodeBody_range:
  "decodeBody env body = Some d \<Longrightarrow> inInt64 (UpdateIntervalHours d) \<and> inInt64 (RuleCount d)"
  by (auto simp: decodeBody_def split: option.splits dest: unmarshalRule_range)

lemma postRules_rulesOk:
  assumes ok: "rulesOk env p" and post: "postRules env uuid writeOk renameOk body p = (resp, p', effs)"
  shows "rulesOk env p'"
proof (cases "failsValidation env body")
  case True
  then have "p' = p" using post
    by (auto simp: failsValidation_def postRules_def split: option.splits if_splits)
  then show ?thesis using ok by simp
next
  case False
  then obtain d where d: "decodeBody env body = Some d"
    and v: "Name d \<noteq> []" "URL d \<noteq> []" "\<not> UpdateIntervalHours d < 0"
    by (auto simp: failsValidation_def split: option.splits)
  let ?new = "d\<lparr>ID := uuid, localPath := filepathJoin env (dir p) (uuid @ ''.rules''),
      LastUpdated := 0\<rparr>"
  have "ruleOk env (dir p) (uuid, ?new)" using decodeBody_range [OF d] by (simp add: ruleOk_def)
  from update_rulesOk [OF ok this] have "rulesOk env (p\<lparr>onlineRules := AList.update uuid ?new (onlineRules p)\<rparr>)" .
  moreover have "p' = p\<lparr>onlineRules := AList.update uuid ?new (onlineRules p)\<rparr>"
    using post d v by (auto simp: postRules_def Let_def split: sum.splits)
  ultimately show ?thesis by simp
qed

lemma putRule_rulesOk:
  assumes ok: "rulesOk env p" and put: "putRule env writeOk renameOk ident body p = (resp, p', effs)"
  shows "rulesOk env p'"
proof (cases "failsValidation env body \<or> map_of (onlineRules p) ident = None")
  case True
  then have "p' = p" using put
    by (auto simp: failsValidation_def putRule_def split: option.splits if_splits)
  then show ?thesis using ok by simp
next
  case False
  then obtain d old where d: "decodeBody env body = Some d"
    and v: "Name d \<noteq> []" "URL d \<noteq> []" "\<not> UpdateIntervalHours d < 0"
    and old: "map_of (onlineRules p) ident = Some old"
    by (auto simp: failsValidation_def split: option.splits)
  let ?new = "old\<lparr>Name := Name d, URL := URL d, Enabled := Enabled d,
      AutoUpdate := AutoUpdate d, UpdateIntervalHours := UpdateIntervalHours d\<rparr>"
  from old have "(ident, old) \<in> set (onlineRules p)" by (rule map_of_SomeD)
  then have "ruleOk env (dir p) (ident, old)" using ok by (auto simp: rulesOk_def list_all_iff)
  then have "ruleOk env (dir p) (ident, ?new)" using decodeBody_range [OF d] by (simp add: ruleOk_def)
  from update_rulesOk [OF ok this]
  have "rulesOk env (p\<lparr>onlineRules := AList.update ident ?new (onlineRules p)\<rparr>)" .
  moreover have "p' = p\<lparr>onlineRules := AList.update ident ?new (onlineRules p)\<rparr>"
    using put d v old by (auto simp: putRule_def Let_def split: sum.splits)
  ultimately show ?thesis by simp
qed

lemma deleteRule_rulesOk:
  assumes ok: "rulesOk env p" and del: "deleteRule env writeOk renameOk ident p = (resp, p', effs)"
  shows "rulesOk env p'"
  using del ok delete_rulesOk [OF ok, of ident]
  by (auto simp: deleteRule_def Let_def split: option.splits sum.splits)

lemma parseLine_count:
  "snd (snd (parseLine env raw st)) = snd (snd st) \<or>
   snd (snd (parseLine env raw st)) = snd (snd st) + 1"
  by (cases st)
    (auto simp: parseLine_def Let_def addWildcardRule_def addDenyRule_def
      split: option.splits sum.splits)

lemma foldl_parseLine_count:
  "snd (snd st) \<le> snd (snd (foldl (\<lambda>st raw. parseLine env raw st) st ls)) \<and>
   snd (snd (foldl (\<lambda>st raw. parseLine env raw st) st ls)) \<le> snd (snd st) + int (length ls)"
proof (induction ls arbitrary: st)
  case Nil
  then show ?case by simp
next
  case (Cons l ls)
  from parseLine_count [of env l st] Cons.IH [of "parseLine env l st"]
  show ?case by auto
qed

lemma countRules_bounds: "0 \<le> countRules env rd \<and> countRules env rd \<le> int (length (fst rd))"
  using foldl_parseLine_count [of "(NewDomainMixMatcher, NewDomainMixMatcher, 0)" env "fst rd"]
  by (simp add: countRules_def parseRules_def)

lemma freshCount_range:
  assumes "\<And>path rd. fs path = Some rd \<Longrightarrow> int (length (fst rd)) < 2 ^ 63"
  shows "inInt64 (freshCount env fs r)"
proof (cases "fs (localPath r)")
  case None
  then show ?thesis by (simp add: freshCount_def inInt64_def)
next
  case (Some rd)
  with assms [OF Some] countRules_bounds [of env rd] show ?thesis
    by (simp add: freshCount_def inInt64_def)
qed

lemma map_fst_map_values: "map fst (map (\<lambda>(k, r). (k, f r)) al) = map fst al"
  by (induction al) auto

lemma updateAllRuleCounts_rulesOk:
  assumes ok: "rulesOk env p"
    and small: "\<And>path rd. fs path = Some rd \<Longrightarrow> int (length (fst rd)) < 2 ^ 63"
  shows "rulesOk env (fst (updateAllRuleCounts env fs p))"
proof -
  let ?m = "map (\<lambda>(k, r). (k, r\<lparr>RuleCount := freshCount env fs r\<rparr>)) (onlineRules p)"
  have keys: "distinct (map fst ?m)"
    unfolding map_fst_map_values using ok by (simp add: rulesOk_def)
  have "list_all (ruleOk env (dir p)) ?m"
    using ok freshCount_range [of fs env, OF small]
    by (auto simp: rulesOk_def list_all_iff ruleOk_def)
  then show ?thesis using keys
    by (simp add: updateAllRuleCounts_def updateCounts_map rulesOk_def del: map_map)
qed

end
